theory Spec2Isabelle
  imports Main "HOL-Library.AList" "HOL-Library.Sublist"
begin

section \<open>JSON values and \<open>JSON.stringify\<close>\<close>

text \<open>
  The values that \<open>JSON.parse\<close> produces. Numbers are the integers; a number with a
  fraction or an exponent prints as digits, a sign, a point and the letter \<open>e\<close>, and is
  left out. An object is the list of its members in insertion order.
\<close>

datatype json =
    JNull
  | JBool bool
  | JNum int
  | JStr string
  | JArr "json list"
  | JObj "(string \<times> json) list"

definition digit_char :: "nat \<Rightarrow> char" where
  "digit_char d = ''0123456789abcdef'' ! d"

fun dec :: "nat \<Rightarrow> string" where
  "dec n = (if n < 10 then [digit_char n] else dec (n div 10) @ [digit_char (n mod 10)])"

declare dec.simps [simp del]

definition show_int :: "int \<Rightarrow> string" where
  "show_int i = (if i < 0 then CHR ''-'' # dec (nat (- i)) else dec (nat i))"

text \<open>
  The escapes of \<open>JSON.stringify\<close> inside a string: the double quote (code 34), the
  backslash (code 92), the five short escapes, and \<open>\u00XX\<close> for every other control
  character.
\<close>

definition escape_char :: "char \<Rightarrow> string" where
  "escape_char c =
     (let n = (of_char c :: nat) in
      if n = 34 then [CHR 0x5C, CHR 0x22]
      else if n = 92 then [CHR 0x5C, CHR 0x5C]
      else if n = 8 then [CHR 0x5C, CHR ''b'']
      else if n = 9 then [CHR 0x5C, CHR ''t'']
      else if n = 10 then [CHR 0x5C, CHR ''n'']
      else if n = 12 then [CHR 0x5C, CHR ''f'']
      else if n = 13 then [CHR 0x5C, CHR ''r'']
      else if n < 32 then [CHR 0x5C, CHR ''u'', CHR ''0'', CHR ''0'',
                           digit_char (n div 16), digit_char (n mod 16)]
      else [c])"

definition quote :: "string \<Rightarrow> string" where
  "quote s = CHR 0x22 # concat (map escape_char s) @ [CHR 0x22]"

fun join :: "string \<Rightarrow> string list \<Rightarrow> string" where
  "join sep [] = []"
| "join sep [x] = x"
| "join sep (x # y # ys) = x @ sep @ join sep (y # ys)"

fun JSON_stringify :: "json \<Rightarrow> string"
  and stringify_elements :: "json list \<Rightarrow> string list"
  and stringify_members :: "(string \<times> json) list \<Rightarrow> string list" where
  "JSON_stringify JNull = ''null''"
| "JSON_stringify (JBool b) = (if b then ''true'' else ''false'')"
| "JSON_stringify (JNum i) = show_int i"
| "JSON_stringify (JStr s) = quote s"
| "JSON_stringify (JArr xs) = ''['' @ join '','' (stringify_elements xs) @ '']''"
| "JSON_stringify (JObj kvs) = ''{'' @ join '','' (stringify_members kvs) @ ''}''"
| "stringify_elements [] = []"
| "stringify_elements (x # xs) = JSON_stringify x # stringify_elements xs"
| "stringify_members [] = []"
| "stringify_members ((k, v) # kvs) = (quote k @ '':'' @ JSON_stringify v) # stringify_members kvs"

section \<open>Errors\<close>

text \<open>
  Every exception the modelled code can raise is a value of this type.
  \<open>CronPatternError\<close> is what \<open>cron.schedule\<close> throws on a pattern it cannot parse,
  \<open>JsError\<close> is \<open>new Error(message)\<close>, \<open>CircuitOpenError\<close> is the rejection of an open
  circuit breaker (with its name), \<open>TimeoutError\<close> the rejection of a call that ran longer
  than the given number of milliseconds, \<open>ApiError\<close> a failure of the remote service, and
  \<open>ValidationError\<close> the refusal of a workflow at build time.
\<close>

datatype error =
    CronPatternError string
  | JsError string
  | CircuitOpenError string
  | TimeoutError nat
  | ApiError string
  | ValidationError string

section \<open>Scheduler (lib/scheduler.ts)\<close>

text \<open>
  \<open>interface ScheduledJob { name; schedule; task; enabled? }\<close>. The optional flag is an
  option: \<open>None\<close> is \<open>undefined\<close>. The task function is an opaque value of type \<open>'t\<close>.
\<close>

record 't ScheduledJob =
  name :: string
  schedule :: string
  task :: 't
  enabled :: "bool option"

text \<open>
  The \<open>ScheduledTask\<close> object of node-cron, as far as the scheduler uses it: the
  pattern it was created with, the function it calls on a matching tick, and whether it
  is started.
\<close>

record 't ScheduledTask =
  expression :: string
  callback :: 't
  running :: bool

text \<open>
  \<open>class Scheduler { jobs: Map<string, ScheduledTask>; isInitialized }\<close>. The map is an
  association list in insertion order, as a JavaScript \<open>Map\<close> iterates; \<open>Map.set\<close> is
  \<open>AList.update\<close> (replace in place, or append), \<open>Map.delete\<close> is \<open>AList.delete\<close>.
\<close>

record 't Scheduler =
  jobs :: "(string \<times> 't ScheduledTask) list"
  isInitialized :: bool

definition task_start :: "'t ScheduledTask \<Rightarrow> 't ScheduledTask" where
  "task_start t = t\<lparr>running := True\<rparr>"

definition task_stop :: "'t ScheduledTask \<Rightarrow> 't ScheduledTask" where
  "task_stop t = t\<lparr>running := False\<rparr>"

text \<open>
  \<open>cron.schedule(expression, func)\<close> of the node-cron library: it throws on a pattern that
  \<open>cron.validate\<close> refuses and otherwise returns a task that is already started. The
  library's validator is the parameter \<open>validate\<close>.
\<close>

definition cron_schedule ::
  "(string \<Rightarrow> bool) \<Rightarrow> string \<Rightarrow> 't \<Rightarrow> error + 't ScheduledTask" where
  "cron_schedule validate expr f =
     (if validate expr
      then Inr \<lparr>expression = expr, callback = f, running = True\<rparr>
      else Inl (CronPatternError expr))"

definition hasJob :: "'t Scheduler \<Rightarrow> string \<Rightarrow> bool" where
  "hasJob s jobName = (map_of (jobs s) jobName \<noteq> None)"

text \<open>
  \<open>register(job)\<close>: three guarded early returns, then the task is created, stopped and
  stored.
\<close>

definition register ::
  "(string \<Rightarrow> bool) \<Rightarrow> 't ScheduledJob \<Rightarrow> 't Scheduler \<Rightarrow> error + 't Scheduler" where
  "register validate job s =
     (if hasJob s (name job) then Inr s
      else if enabled job = Some False then Inr s
      else if \<not> validate (schedule job) then Inr s
      else (case cron_schedule validate (schedule job) (task job) of
              Inl e \<Rightarrow> Inl e
            | Inr scheduledTask \<Rightarrow>
                Inr (s\<lparr>jobs := AList.update (name job) (task_stop scheduledTask) (jobs s)\<rparr>)))"

definition start :: "'t Scheduler \<Rightarrow> 't Scheduler" where
  "start s =
     (if isInitialized s then s
      else s\<lparr>jobs := map (\<lambda>(n, t). (n, task_start t)) (jobs s), isInitialized := True\<rparr>)"

definition stop :: "'t Scheduler \<Rightarrow> 't Scheduler" where
  "stop s = s\<lparr>jobs := map (\<lambda>(n, t). (n, task_stop t)) (jobs s), isInitialized := False\<rparr>"

definition unregister :: "string \<Rightarrow> 't Scheduler \<Rightarrow> 't Scheduler" where
  "unregister jobName s =
     (case map_of (jobs s) jobName of
        None \<Rightarrow> s
      | Some t \<Rightarrow> s\<lparr>jobs := AList.delete jobName (jobs s)\<rparr>)"

definition startJob :: "string \<Rightarrow> 't Scheduler \<Rightarrow> bool \<times> 't Scheduler" where
  "startJob jobName s =
     (case map_of (jobs s) jobName of
        None \<Rightarrow> (False, s)
      | Some t \<Rightarrow> (True, s\<lparr>jobs := AList.update jobName (task_start t) (jobs s)\<rparr>))"

definition stopJob :: "string \<Rightarrow> 't Scheduler \<Rightarrow> bool \<times> 't Scheduler" where
  "stopJob jobName s =
     (case map_of (jobs s) jobName of
        None \<Rightarrow> (False, s)
      | Some t \<Rightarrow> (True, s\<lparr>jobs := AList.update jobName (task_stop t) (jobs s)\<rparr>))"

text \<open>
  \<open>registerOrUpdate(job)\<close>: unregister an existing job of that name, register, and,
  unless \<open>job.enabled === false\<close>, start the job and set \<open>isInitialized\<close>.
\<close>

definition registerOrUpdate ::
  "(string \<Rightarrow> bool) \<Rightarrow> 't ScheduledJob \<Rightarrow> 't Scheduler \<Rightarrow> error + 't Scheduler" where
  "registerOrUpdate validate job s =
     (let s1 = (if hasJob s (name job) then unregister (name job) s else s)
      in case register validate job s1 of
           Inl e \<Rightarrow> Inl e
         | Inr s2 \<Rightarrow>
             if enabled job \<noteq> Some False
             then (let s3 = snd (startJob (name job) s2)
                   in Inr (if \<not> isInitialized s3 then s3\<lparr>isInitialized := True\<rparr> else s3))
             else Inr s2)"

definition isRunning :: "'t Scheduler \<Rightarrow> bool" where
  "isRunning s = isInitialized s"

text \<open>
  The scheduler together with the clock. \<open>fired\<close> lists, in order, the names of the jobs
  whose task ran. A tick of the clock at which every pattern matches runs each started
  task once, in the order of the map.
\<close>

record 't world =
  scheduler :: "'t Scheduler"
  fired :: "string list"

datatype 't op =
    Register "'t ScheduledJob"
  | Start
  | Stop
  | Unregister string
  | StartJob string
  | StopJob string
  | RegisterOrUpdate "'t ScheduledJob"
  | Tick

definition tick :: "'t world \<Rightarrow> 't world" where
  "tick w = w\<lparr>fired := fired w @ map fst (filter (\<lambda>(n, t). running t) (jobs (scheduler w)))\<rparr>"

fun exec :: "(string \<Rightarrow> bool) \<Rightarrow> 't op \<Rightarrow> 't world \<Rightarrow> error + 't world" where
  "exec validate (Register job) w =
     (case register validate job (scheduler w) of
        Inl e \<Rightarrow> Inl e | Inr s \<Rightarrow> Inr (w\<lparr>scheduler := s\<rparr>))"
| "exec validate Start w = Inr (w\<lparr>scheduler := start (scheduler w)\<rparr>)"
| "exec validate Stop w = Inr (w\<lparr>scheduler := stop (scheduler w)\<rparr>)"
| "exec validate (Unregister n) w = Inr (w\<lparr>scheduler := unregister n (scheduler w)\<rparr>)"
| "exec validate (StartJob n) w = Inr (w\<lparr>scheduler := snd (startJob n (scheduler w))\<rparr>)"
| "exec validate (StopJob n) w = Inr (w\<lparr>scheduler := snd (stopJob n (scheduler w))\<rparr>)"
| "exec validate (RegisterOrUpdate job) w =
     (case registerOrUpdate validate job (scheduler w) of
        Inl e \<Rightarrow> Inl e | Inr s \<Rightarrow> Inr (w\<lparr>scheduler := s\<rparr>))"
| "exec validate Tick w = Inr (tick w)"

fun run :: "(string \<Rightarrow> bool) \<Rightarrow> 't op list \<Rightarrow> 't world \<Rightarrow> error + 't world" where
  "run validate [] w = Inr w"
| "run validate (c # cs) w =
     (case exec validate c w of Inl e \<Rightarrow> Inl e | Inr w' \<Rightarrow> run validate cs w')"

text \<open>The calls that the scheduler offers for starting the job named \<open>n\<close>.\<close>

fun starts :: "string \<Rightarrow> 't op \<Rightarrow> bool" where
  "starts n Start = True"
| "starts n (StartJob m) = (m = n)"
| "starts n (RegisterOrUpdate job) = (name job = n)"
| "starts n _ = False"

text \<open>The job map holds a started task under the name \<open>n\<close>.\<close>

definition is_started :: "string \<Rightarrow> 't Scheduler \<Rightarrow> bool" where
  "is_started n s = list_ex (\<lambda>(m, t). m = n \<and> running t) (jobs s)"

text \<open>
  A stand-in for the library's validator, used where a concrete one is needed: a pattern
  is accepted when it has five or six fields separated by single spaces and no field is
  empty.
\<close>

fun fields :: "string \<Rightarrow> string list" where
  "fields [] = [[]]"
| "fields (c # cs) =
     (if c = CHR '' '' then [] # fields cs
      else (case fields cs of [] \<Rightarrow> [[c]] | f # fs \<Rightarrow> (c # f) # fs))"

definition field_count_ok :: "string \<Rightarrow> bool" where
  "field_count_ok expr =
     ((length (fields expr) = 5 \<or> length (fields expr) = 6) \<and> [] \<notin> set (fields expr))"

text \<open>A scheduler that was started with one hourly job, used in the examples.\<close>

definition hourly_scheduler :: "nat Scheduler" where
  "hourly_scheduler =
     \<lparr>jobs = [(''tweets'', \<lparr>expression = ''0 * * * *'', callback = 1, running = True\<rparr>)],
      isInitialized = True\<rparr>"

text \<open>The scheduler after \<open>registerOrUpdate\<close> has dropped an older job of the name \<open>n\<close>.\<close>

definition cleared :: "string \<Rightarrow> 't Scheduler \<Rightarrow> 't Scheduler" where
  "cleared n s = (if hasJob s n then unregister n s else s)"

text \<open>No started task is stored under \<open>n\<close> and no task of that name has run.\<close>

definition quiet :: "string \<Rightarrow> 't world \<Rightarrow> bool" where
  "quiet n w \<longleftrightarrow> \<not> is_started n (scheduler w) \<and> n \<notin> set (fired w)"

section \<open>Workflow execution queue (the queue module of lib/workflows)\<close>

text \<open>A JavaScript value used as a condition: \<open>undefined\<close> and the empty string are falsy.\<close>

definition truthy :: "string option \<Rightarrow> bool" where
  "truthy v = (case v of None \<Rightarrow> False | Some s \<Rightarrow> s \<noteq> [])"

text \<open>A value inside a template literal: \<open>undefined\<close> prints as the word.\<close>

definition template :: "string option \<Rightarrow> string" where
  "template v = (case v of None \<Rightarrow> ''undefined'' | Some s \<Rightarrow> s)"

definition WORKFLOW_QUEUE_NAME :: string where
  "WORKFLOW_QUEUE_NAME = ''workflows-execution''"

datatype triggerType =
  Manual | Cron | Webhook | Telegram | Discord | Chat | ChatInput | Gmail | Outlook

record WorkflowJobData =
  workflowId :: string
  userId :: string
  triggerType :: triggerType
  triggerData :: "json option"

text \<open>
  What \<open>executeWorkflow\<close> of the executor module returns, as far as the queue reads it:
  the success flag, the error message and the id of the failing step.
\<close>

record ExecutionResult =
  success :: bool
  error :: "string option"
  errorStep :: "string option"

text \<open>
  \<open>executeWorkflow\<close> is a parameter. A call either returns a result or throws, and what it
  does may depend on the calls made before it: an executor maps the list of earlier calls
  and the arguments of this call to the outcome.
\<close>

datatype outcome = Returns ExecutionResult | Throws error

type_synonym executor = "WorkflowJobData list \<Rightarrow> WorkflowJobData \<Rightarrow> outcome"

text \<open>The job options given to \<open>createQueue\<close>; delays in milliseconds, ages in seconds.\<close>

datatype backoffType = Exponential | Fixed

record JobOptions =
  attempts :: nat
  backoffType :: backoffType
  backoffDelay :: nat
  removeOnCompleteAge :: nat
  removeOnCompleteCount :: nat
  removeOnFailAge :: nat
  removeOnFailCount :: nat

definition defaultJobOptions :: JobOptions where
  "defaultJobOptions =
     \<lparr>attempts = 3, backoffType = Exponential, backoffDelay = 10000,
      removeOnCompleteAge = 86400, removeOnCompleteCount = 1000,
      removeOnFailAge = 604800, removeOnFailCount = 5000\<rparr>"

text \<open>
  The message of the error that the worker throws for a result without success:
  \<open>`Workflow execution failed: ${result.error} ${result.errorStep ? `(step: ${result.errorStep})` : ''}`\<close>.
\<close>

definition failureMessage :: "ExecutionResult \<Rightarrow> string" where
  "failureMessage result =
     ''Workflow execution failed: '' @ template (error result) @ '' '' @
     (if truthy (errorStep result) then ''(step: '' @ template (errorStep result) @ '')'' else '''')"

text \<open>
  The worker's processor. It calls \<open>executeWorkflow\<close> once with the data of the job; a
  result without success becomes a thrown error, an exception of the executor is logged
  and thrown again. The second component is the list of executor calls made so far.
\<close>

definition processor ::
  "executor \<Rightarrow> WorkflowJobData \<Rightarrow> WorkflowJobData list
     \<Rightarrow> (error + ExecutionResult) \<times> WorkflowJobData list" where
  "processor executeWorkflow jobData calls =
     (case executeWorkflow calls jobData of
        Throws e \<Rightarrow> (Inl e, calls @ [jobData])
      | Returns result \<Rightarrow>
          if \<not> success result then (Inl (JsError (failureMessage result)), calls @ [jobData])
          else (Inr result, calls @ [jobData]))"

text \<open>
  The worker's \<open>failed\<close> handler: for a job with fewer than three attempts made it logs
  that a retry is scheduled, with the number of the next attempt and
  \<open>Math.pow(2, job.attemptsMade) * 10\<close> seconds.
\<close>

record RetryNotice =
  attempt :: nat
  nextRetryInSeconds :: nat

definition failedHandler :: "nat \<Rightarrow> RetryNotice option" where
  "failedHandler attemptsMade =
     (if attemptsMade < 3
      then Some \<lparr>attempt = attemptsMade + 1, nextRetryInSeconds = 2 ^ attemptsMade * 10\<rparr>
      else None)"

subsection \<open>The queue backend\<close>

datatype jobState = Waiting | Active | Completed | Failed | Delayed

record QueuedJob =
  jobId :: "string option"
  jobName :: string
  jobData :: WorkflowJobData
  priority :: nat
  delay :: "nat option"
  jobState :: jobState

type_synonym queue = "QueuedJob list"

text \<open>
  The queue registry \<open>queues\<close> of the queue module and the log of executor calls are the
  state that the functions of this module read and change.
\<close>

record qworld =
  queues :: "(string \<times> queue) list"
  calls :: "WorkflowJobData list"

definition getWaitingCount :: "queue \<Rightarrow> nat" where
  "getWaitingCount q = length (filter (\<lambda>j. jobState j = Waiting) q)"

definition getActiveCount :: "queue \<Rightarrow> nat" where
  "getActiveCount q = length (filter (\<lambda>j. jobState j = Active) q)"

definition getCompletedCount :: "queue \<Rightarrow> nat" where
  "getCompletedCount q = length (filter (\<lambda>j. jobState j = Completed) q)"

definition getFailedCount :: "queue \<Rightarrow> nat" where
  "getFailedCount q = length (filter (\<lambda>j. jobState j = Failed) q)"

definition getDelayedCount :: "queue \<Rightarrow> nat" where
  "getDelayedCount q = length (filter (\<lambda>j. jobState j = Delayed) q)"

text \<open>
  What the queue backend records of a job when it has finished with it: the final state,
  the value returned or the last error, the number of runs, the waits between the runs
  in milliseconds, the retry notices logged, and the executor calls made.
\<close>

record JobRecord =
  finalState :: jobState
  returnValue :: "error + ExecutionResult"
  attemptsMade :: nat
  backoffs :: "nat list"
  notices :: "RetryNotice list"
  executorCalls :: "WorkflowJobData list"

text \<open>
  Modelled from the spec: the wait of the queue backend before the retry that follows
  failure number \<open>made\<close>; the backend is missing from the sources. With exponential backoff
  it is the base delay, doubled with every further failure.
\<close>

definition backoffFor :: "JobOptions \<Rightarrow> nat \<Rightarrow> nat" where
  "backoffFor opts made =
     (case backoffType opts of
        Exponential \<Rightarrow> 2 ^ (made - 1) * backoffDelay opts
      | Fixed \<Rightarrow> backoffDelay opts)"

text \<open>
  Modelled from the spec: the retry loop of the queue backend (the \<open>queue\<close> module and the
  job-queue library behind it), which is missing from the sources. A job is run by the
  processor; when the processor throws, the job is retried until \<open>attempts\<close> runs have been
  made in all; after the last failing run the job is failed. The \<open>failed\<close> handler of the
  worker is called after every failing run with the number of runs made. The first
  number is the count of runs still allowed.
\<close>

fun runAttempts ::
  "executor \<Rightarrow> JobOptions \<Rightarrow> WorkflowJobData \<Rightarrow> nat \<Rightarrow> nat \<Rightarrow> nat list \<Rightarrow> RetryNotice list
     \<Rightarrow> WorkflowJobData list \<Rightarrow> JobRecord" where
  "runAttempts ex opts d 0 made waits ns cs =
     \<lparr>finalState = Failed, returnValue = Inl (JsError ''no attempts left''), attemptsMade = made,
      backoffs = waits, notices = ns, executorCalls = cs\<rparr>"
| "runAttempts ex opts d (Suc left) made waits ns cs =
     (case processor ex d cs of
        (Inr result, cs') \<Rightarrow>
          \<lparr>finalState = Completed, returnValue = Inr result, attemptsMade = made + 1,
           backoffs = waits, notices = ns, executorCalls = cs'\<rparr>
      | (Inl e, cs') \<Rightarrow>
          (let made' = made + 1;
               ns' = (case failedHandler made' of None \<Rightarrow> ns | Some n \<Rightarrow> ns @ [n])
           in if left = 0
              then \<lparr>finalState = Failed, returnValue = Inl e, attemptsMade = made',
                    backoffs = waits, notices = ns', executorCalls = cs'\<rparr>
              else runAttempts ex opts d left made' (waits @ [backoffFor opts made']) ns' cs'))"

text \<open>
  Modelled from the spec: a job taken from the queue is run with the attempts its options
  allow, and at least once.
\<close>

definition runJob :: "executor \<Rightarrow> JobOptions \<Rightarrow> WorkflowJobData \<Rightarrow> WorkflowJobData list \<Rightarrow> JobRecord" where
  "runJob ex opts d cs = runAttempts ex opts d (max 1 (attempts opts)) 0 [] [] cs"

subsection \<open>Enqueueing and statistics\<close>

record QueueOptions =
  optPriority :: "nat option"
  optDelay :: "nat option"

record AddOptions =
  addPriority :: nat
  addDelay :: "nat option"

record QueueResult =
  resultJobId :: string
  queued :: bool

text \<open>
  \<open>addJob\<close> of the queue module is a parameter: given the queue name, the job name, the
  data and the options it either throws or returns the id of the new job, and it leaves a
  new registry.
\<close>

type_synonym addJob =
  "string \<Rightarrow> string \<Rightarrow> WorkflowJobData \<Rightarrow> AddOptions \<Rightarrow> (string \<times> queue) list
     \<Rightarrow> (error + string option) \<times> (string \<times> queue) list"

text \<open>\<open>options?.priority || 5\<close>: an absent priority and the priority 0 both give 5.\<close>

definition priorityOr5 :: "QueueOptions option \<Rightarrow> nat" where
  "priorityOr5 options =
     (case options of
        None \<Rightarrow> 5
      | Some opts \<Rightarrow> (case optPriority opts of None \<Rightarrow> 5 | Some p \<Rightarrow> if p = 0 then 5 else p))"

definition delayOf :: "QueueOptions option \<Rightarrow> nat option" where
  "delayOf options = (case options of None \<Rightarrow> None | Some opts \<Rightarrow> optDelay opts)"

text \<open>
  \<open>queueWorkflowExecution\<close>. \<open>redisUrl\<close> is \<open>process.env.REDIS_URL\<close>. Every error inside the
  \<open>try\<close> block is logged and thrown again unchanged.
\<close>

definition queueWorkflowExecution ::
  "executor \<Rightarrow> addJob \<Rightarrow> string option \<Rightarrow> string \<Rightarrow> string \<Rightarrow> triggerType \<Rightarrow> json option
     \<Rightarrow> QueueOptions option \<Rightarrow> qworld \<Rightarrow> (error + QueueResult) \<times> qworld" where
  "queueWorkflowExecution executeWorkflow addJob redisUrl wid uid tt td options w =
     (let d = \<lparr>workflowId = wid, userId = uid, triggerType = tt, triggerData = td\<rparr>
      in if \<not> truthy redisUrl
         then (case executeWorkflow (calls w) d of
                 Throws e \<Rightarrow> (Inl e, w\<lparr>calls := calls w @ [d]\<rparr>)
               | Returns result \<Rightarrow>
                   (Inr \<lparr>resultJobId = ''direct-execution'', queued = False\<rparr>,
                    w\<lparr>calls := calls w @ [d]\<rparr>))
         else (case map_of (queues w) WORKFLOW_QUEUE_NAME of
                 None \<Rightarrow>
                   (Inl (JsError
                      ''Workflow queue not initialized. Call initializeWorkflowQueue() first.''), w)
               | Some q \<Rightarrow>
                   (case addJob WORKFLOW_QUEUE_NAME (''workflow-'' @ wid) d
                           \<lparr>addPriority = priorityOr5 options, addDelay = delayOf options\<rparr>
                           (queues w) of
                      (Inl e, qs) \<Rightarrow> (Inl e, w\<lparr>queues := qs\<rparr>)
                    | (Inr jid, qs) \<Rightarrow>
                        (Inr \<lparr>resultJobId = (if truthy jid then template jid else ''unknown''),
                              queued = True\<rparr>,
                         w\<lparr>queues := qs\<rparr>))))"

record QueueStats =
  waiting :: nat
  active :: nat
  completed :: nat
  failed :: nat
  delayed :: nat
  total :: nat

definition getWorkflowQueueStats :: "qworld \<Rightarrow> QueueStats option" where
  "getWorkflowQueueStats w =
     (case map_of (queues w) WORKFLOW_QUEUE_NAME of
        None \<Rightarrow> None
      | Some queue \<Rightarrow>
          (let waiting = getWaitingCount queue;
               active = getActiveCount queue;
               completed = getCompletedCount queue;
               failed = getFailedCount queue;
               delayed = getDelayedCount queue
           in Some \<lparr>waiting = waiting, active = active, completed = completed,
                     failed = failed, delayed = delayed,
                     total = waiting + active + delayed\<rparr>))"

definition isWorkflowQueueAvailable :: "string option \<Rightarrow> qworld \<Rightarrow> bool" where
  "isWorkflowQueueAvailable redisUrl w =
     (truthy redisUrl \<and> map_of (queues w) WORKFLOW_QUEUE_NAME \<noteq> None)"

text \<open>Run number \<open>k\<close> (counted from 0) of a job fails: the processor throws.\<close>

definition attemptFails :: "executor \<Rightarrow> WorkflowJobData \<Rightarrow> WorkflowJobData list \<Rightarrow> nat \<Rightarrow> bool" where
  "attemptFails ex d cs k = isl (fst (processor ex d (cs @ replicate k d)))"

text \<open>Examples: a job, an executor that fails twice and then succeeds, one that always fails.\<close>

definition digest_job :: WorkflowJobData where
  "digest_job = \<lparr>workflowId = ''wf-1'', userId = ''u-1'', triggerType = Manual, triggerData = None\<rparr>"

definition flaky_executor :: executor where
  "flaky_executor cs d =
     (if length cs < 2
      then Returns \<lparr>success = False, error = Some ''timeout'', errorStep = Some ''fetch-feed''\<rparr>
      else Returns \<lparr>success = True, error = None, errorStep = None\<rparr>)"

definition failing_executor :: executor where
  "failing_executor cs d =
     Returns \<lparr>success = False, error = Some ''Rate limit exceeded'', errorStep = None\<rparr>"

definition mixed_queue :: queue where
  "mixed_queue =
     map (\<lambda>st. \<lparr>jobId = None, jobName = ''workflow-wf-1'', jobData = digest_job, priority = 5,
                 delay = None, jobState = st\<rparr>)
       [Waiting, Active, Completed, Completed, Failed, Delayed, Waiting]"

section \<open>Static check of variable references (scripts/validate-workflow.ts)\<close>

text \<open>A step of \<open>WorkflowExport.config.steps\<close>; \<open>inputs\<close> is a JSON object.\<close>

record WorkflowStep =
  stepId :: string
  module :: string
  inputs :: json
  outputAs :: "string option"

text \<open>The character classes \<open>\w\<close> and \<open>\d\<close> of a regular expression without the unicode flag.\<close>

definition is_word :: "char \<Rightarrow> bool" where
  "is_word c \<longleftrightarrow>
     c \<in> set ''abcdefghijklmnopqrstuvwxyzABCDEFGHIJKLMNOPQRSTUVWXYZ0123456789_''"

definition is_digit :: "char \<Rightarrow> bool" where
  "is_digit c \<longleftrightarrow> c \<in> set ''0123456789''"

text \<open>
  The pattern \<open>/\{\{(\w+)(?:\.\w+)*(?:\[\d+\])*\}\}/g\<close>, piece by piece. Every piece is
  greedy, and giving back what a piece has taken never helps: after a shorter run of word
  characters comes a word character, after a shorter run of digits a digit, after fewer
  \<open>.field\<close> groups a dot and after fewer \<open>[n]\<close> groups a bracket, none of which the next
  piece accepts. So the match at a position is found without backtracking.

  \<open>dotted\<close> takes the groups \<open>(?:\.\w+)*\<close> off the front of a string and returns the rest,
  \<open>indexed\<close> does the same for \<open>(?:\[\d+\])*\<close>.
\<close>

function dotted :: "string \<Rightarrow> string" where
  "dotted [] = []"
| "dotted (c # cs) =
     (if c = CHR ''.'' \<and> takeWhile is_word cs \<noteq> [] then dotted (dropWhile is_word cs)
      else c # cs)"
  by pat_completeness auto
termination
  by (relation "measure length") (auto simp: length_dropWhile_le less_Suc_eq_le)

function indexed :: "string \<Rightarrow> string" where
  "indexed [] = []"
| "indexed (c # cs) =
     (if c = CHR ''['' \<and> takeWhile is_digit cs \<noteq> []
         \<and> take 1 (dropWhile is_digit cs) = '']''
      then indexed (drop 1 (dropWhile is_digit cs))
      else c # cs)"
  by pat_completeness auto
termination
  by (relation "measure length")
     (auto simp: less_Suc_eq_le intro: le_trans [OF diff_le_self length_dropWhile_le])

text \<open>
  The match of the whole pattern at the front of a string, if there is one: the matched
  text and what follows it.
\<close>

definition match_ref :: "string \<Rightarrow> (string \<times> string) option" where
  "match_ref s =
     (if take 2 s = ''{{'' \<and> takeWhile is_word (drop 2 s) \<noteq> []
      then (let r = indexed (dotted (dropWhile is_word (drop 2 s)))
            in if take 2 r = ''}}''
               then Some (take (length s - length (drop 2 r)) s, drop 2 r)
               else None)
      else None)"

text \<open>
  \<open>inputsStr.match(...)\<close> with the flag \<open>g\<close>: all matches from left to right, the search
  going on behind each match. The counter is the number of characters still covered by
  the match found last.
\<close>

fun match_all_from :: "nat \<Rightarrow> string \<Rightarrow> string list" where
  "match_all_from k [] = []"
| "match_all_from (Suc k) (c # cs) = match_all_from k cs"
| "match_all_from 0 (c # cs) =
     (case match_ref (c # cs) of
        Some (m, rest) \<Rightarrow> m # match_all_from (length m - 1) cs
      | None \<Rightarrow> match_all_from 0 cs)"

definition match_all :: "string \<Rightarrow> string list" where
  "match_all s = match_all_from 0 s"

text \<open>
  \<open>ref.match(/\{\{(\w+)/)?.[1]\<close>: the first place in \<open>ref\<close> where two braces are followed by
  a word character, and the longest run of word characters there.
\<close>

fun varName :: "string \<Rightarrow> string option" where
  "varName (a # b # cs) =
     (if a = CHR ''{'' \<and> b = CHR ''{'' \<and> takeWhile is_word cs \<noteq> []
      then Some (takeWhile is_word cs)
      else varName (b # cs))"
| "varName _ = None"

text \<open>
  The message \<open>`Step ${index + 1} (${step.id}): References undeclared variable "${varName}"`\<close>.
\<close>

definition undeclaredMessage :: "nat \<Rightarrow> string \<Rightarrow> string \<Rightarrow> string" where
  "undeclaredMessage index sid v =
     ''Step '' @ dec (index + 1) @ '' ('' @ sid @ ''): References undeclared variable '' @
     [CHR 0x22] @ v @ [CHR 0x22]"

text \<open>The references that the pattern finds in the inputs of a step.\<close>

definition variableRefs :: "WorkflowStep \<Rightarrow> string list" where
  "variableRefs step = match_all (JSON_stringify (inputs step))"

text \<open>
  The body of the inner \<open>forEach\<close>: the errors for one reference, given the set of declared
  names.
\<close>

definition refErrors :: "nat \<Rightarrow> WorkflowStep \<Rightarrow> string list \<Rightarrow> string \<Rightarrow> string list" where
  "refErrors index step declaredVariables ref =
     (case varName ref of
        None \<Rightarrow> []
      | Some v \<Rightarrow>
          if v \<noteq> [] \<and> v \<notin> set declaredVariables \<and> v \<noteq> ''user''
          then [undeclaredMessage index (stepId step) v]
          else [])"

text \<open>
  The outer \<open>forEach\<close> over the steps, from the step with the given index on:
  \<open>declaredVariables\<close> is the set built so far.
\<close>

fun checkSteps :: "nat \<Rightarrow> string list \<Rightarrow> WorkflowStep list \<Rightarrow> string list" where
  "checkSteps index declaredVariables [] = []"
| "checkSteps index declaredVariables (step # rest) =
     concat (map (refErrors index step declaredVariables) (variableRefs step)) @
     checkSteps (index + 1)
       (if truthy (outputAs step) then List.insert (template (outputAs step)) declaredVariables
        else declaredVariables)
       rest"

definition validateVariableReferences :: "WorkflowStep list \<Rightarrow> string list" where
  "validateVariableReferences steps = checkSteps 0 [] steps"

text \<open>
  The part of \<open>validateWorkflow\<close> that follows the check of the module paths. The checks
  before it are parameters: whether the structure is valid, and the errors of the module
  paths. The script ends with exit code 1 after either of them; the errors of the
  variable references are printed as warnings and the script goes on to its end.
\<close>

datatype scriptEnd = Exit1 | ValidationComplete "string list"

definition validateWorkflow :: "bool \<Rightarrow> string list \<Rightarrow> WorkflowStep list \<Rightarrow> scriptEnd" where
  "validateWorkflow structureValid moduleErrors steps =
     (if \<not> structureValid then Exit1
      else if length moduleErrors > 0 then Exit1
      else ValidationComplete (validateVariableReferences steps))"

text \<open>The names bound by \<open>outputAs\<close> in the steps before the step number \<open>i\<close>.\<close>

definition boundBefore :: "WorkflowStep list \<Rightarrow> nat \<Rightarrow> string list" where
  "boundBefore steps i =
     map (\<lambda>s. template (outputAs s)) (filter (\<lambda>s. truthy (outputAs s)) (take i steps))"

text \<open>Examples.\<close>

definition trigger_step :: WorkflowStep where
  "trigger_step =
     \<lparr>stepId = ''reply'', module = ''ai.openai.generateText'',
      inputs = JObj [(''prompt'', JStr ''Answer: {{trigger.message}}'')], outputAs = Some ''answer''\<rparr>"

definition fetch_step :: WorkflowStep where
  "fetch_step =
     \<lparr>stepId = ''fetch'', module = ''social.twitter.search'',
      inputs = JObj [(''apiKey'', JStr ''{{user.twitter}}''), (''limit'', JNum 5)],
      outputAs = Some ''tweets''\<rparr>"

definition pick_step :: WorkflowStep where
  "pick_step =
     \<lparr>stepId = ''pick'', module = ''utilities.array-utils.first'',
      inputs = JObj [(''text'', JStr ''{{tweets[0]}} and {{later[0].name}}'')],
      outputAs = Some ''first''\<rparr>"

section \<open>Resilience around the OpenAI module (modules/ai/openai.ts)\<close>

text \<open>
  What can be observed of a call: the policies it passes and the requests it sends, in
  order; a request is noted with the name of the model and the timeout of the client that
  sends it. The state also holds the names of the circuits that are open.
\<close>

datatype event =
    RateLimiterEntered string
  | BreakerPassed string
  | BreakerRejected string
  | TimeoutArmed nat
  | OpenAIRequest string nat

record rstate =
  events :: "event list"
  openCircuits :: "string list"

text \<open>An action returns its result, or the error it throws, and the time it took.\<close>

type_synonym 'a action = "rstate \<Rightarrow> ((error + 'a) \<times> nat) \<times> rstate"

definition emit :: "event \<Rightarrow> rstate \<Rightarrow> rstate" where
  "emit e st = st\<lparr>events := events st @ [e]\<rparr>"

text \<open>
  The remote service is a parameter: for the name of a model it gives the answer, or an
  error, and the time the request takes in milliseconds.
\<close>

type_synonym api = "string \<Rightarrow> (error + string) \<times> nat"

text \<open>The options of a rate limiter and of a circuit breaker, as the module sets them.\<close>

record RateLimiter =
  limiterId :: string
  maxConcurrent :: nat
  minTime :: nat
  reservoir :: nat
  reservoirRefreshAmount :: nat
  reservoirRefreshInterval :: nat

record CircuitBreaker =
  breakerName :: string
  breakerTimeout :: nat

text \<open>
  Modelled from the spec: \<open>withRateLimit\<close> of the rate-limiter module, which is missing
  from the sources. The limiter takes the call in (and may hold it back to respect its
  quota) and then runs it.
\<close>

definition withRateLimit ::
  "('o \<Rightarrow> 'a action) \<Rightarrow> RateLimiter \<Rightarrow> 'o \<Rightarrow> 'a action" where
  "withRateLimit fn limiter options st = fn options (emit (RateLimiterEntered (limiterId limiter)) st)"

text \<open>
  Modelled from the spec: \<open>fire\<close> of the breaker that \<open>createCircuitBreaker\<close> of the
  resilience module makes; the module is missing from the sources. On an open circuit it
  fails at once and does not attempt the call; on a closed circuit it arms the timeout of
  the breaker and runs the call, and a call that takes longer than the timeout is
  rejected.
\<close>

definition fire ::
  "CircuitBreaker \<Rightarrow> ('o \<Rightarrow> 'a action) \<Rightarrow> 'o \<Rightarrow> 'a action" where
  "fire breaker fn options st =
     (if breakerName breaker \<in> set (openCircuits st)
      then ((Inl (CircuitOpenError (breakerName breaker)), 0),
            emit (BreakerRejected (breakerName breaker)) st)
      else (case fn options
                   (emit (TimeoutArmed (breakerTimeout breaker))
                      (emit (BreakerPassed (breakerName breaker)) st)) of
              ((r, t), st') \<Rightarrow>
                if t > breakerTimeout breaker
                then ((Inl (TimeoutError (breakerTimeout breaker)), breakerTimeout breaker), st')
                else ((r, t), st')))"

subsection \<open>The module\<close>

definition openaiRateLimiter :: RateLimiter where
  "openaiRateLimiter =
     \<lparr>limiterId = ''openai'', maxConcurrent = 5, minTime = 200, reservoir = 500,
      reservoirRefreshAmount = 500, reservoirRefreshInterval = 60 * 1000\<rparr>"

record OpenAICompletionOptions =
  messages :: "string list"
  model :: "string option"

definition modelOr :: "string option \<Rightarrow> string \<Rightarrow> string" where
  "modelOr m d = (if truthy m then template m else d)"

text \<open>
  A client of the OpenAI library, \<open>new OpenAI({ apiKey, timeout })\<close>, and the client of the
  module: \<open>OPENAI_API_KEY ? new OpenAI({ apiKey: OPENAI_API_KEY, timeout: 60000 }) : null\<close>.
\<close>

record OpenAIClient =
  clientApiKey :: string
  clientTimeout :: nat

definition openaiClient :: "string option \<Rightarrow> OpenAIClient option" where
  "openaiClient apiKeyEnv =
     (if truthy apiKeyEnv
      then Some \<lparr>clientApiKey = template apiKeyEnv, clientTimeout = 60000\<rparr>
      else None)"

text \<open>
  \<open>client.chat.completions.create\<close> of the OpenAI library: one request to the service, which
  the client rejects when it takes longer than the timeout the client was built with.
\<close>

definition chatCompletionsCreate :: "api \<Rightarrow> OpenAIClient \<Rightarrow> string \<Rightarrow> string action" where
  "chatCompletionsCreate api client m st =
     (case api m of
        (r, t) \<Rightarrow>
          if t > clientTimeout client
          then ((Inl (TimeoutError (clientTimeout client)), clientTimeout client),
                emit (OpenAIRequest m (clientTimeout client)) st)
          else ((r, t), emit (OpenAIRequest m (clientTimeout client)) st))"

text \<open>
  \<open>createCompletionInternal\<close>: without a client (no \<open>OPENAI_API_KEY\<close>) it throws, otherwise
  it sends one request through the client of the module.
\<close>

definition createCompletionInternal ::
  "api \<Rightarrow> string option \<Rightarrow> OpenAICompletionOptions \<Rightarrow> string action" where
  "createCompletionInternal api apiKeyEnv options st =
     (case openaiClient apiKeyEnv of
        None \<Rightarrow> ((Inl (JsError ''OpenAI client not initialized. Set OPENAI_API_KEY.''), 0), st)
      | Some client \<Rightarrow>
          chatCompletionsCreate api client (modelOr (model options) ''gpt-4o-mini'') st)"

definition createCompletionWithBreaker :: CircuitBreaker where
  "createCompletionWithBreaker = \<lparr>breakerName = ''openai-completion'', breakerTimeout = 60000\<rparr>"

definition createCompletionRateLimited ::
  "api \<Rightarrow> string option \<Rightarrow> OpenAICompletionOptions \<Rightarrow> string action" where
  "createCompletionRateLimited api apiKeyEnv =
     withRateLimit
       (\<lambda>options. fire createCompletionWithBreaker (createCompletionInternal api apiKeyEnv) options)
       openaiRateLimiter"

definition createCompletion ::
  "api \<Rightarrow> string option \<Rightarrow> OpenAICompletionOptions \<Rightarrow> string action" where
  "createCompletion api apiKeyEnv options st = createCompletionRateLimited api apiKeyEnv options st"

definition chat ::
  "api \<Rightarrow> string option \<Rightarrow> string list \<Rightarrow> string option \<Rightarrow> string action" where
  "chat api apiKeyEnv msgs m st =
     createCompletion api apiKeyEnv \<lparr>messages = msgs, model = Some (modelOr m ''gpt-4o-mini'')\<rparr> st"

text \<open>
  \<open>generateText\<close>: the client is made from the \<open>apiKey\<close> parameter, with a timeout of
  60000 ms, or is the client of the module; without either it throws, otherwise it sends
  one request through that client.
\<close>

record GenerateTextParams =
  prompt :: string
  systemPrompt :: "string option"
  textModel :: "string option"
  apiKey :: "string option"

definition generateText ::
  "api \<Rightarrow> string option \<Rightarrow> GenerateTextParams \<Rightarrow> string action" where
  "generateText api apiKeyEnv params st =
     (case (if truthy (apiKey params)
            then Some \<lparr>clientApiKey = template (apiKey params), clientTimeout = 60000\<rparr>
            else openaiClient apiKeyEnv) of
        None \<Rightarrow>
          ((Inl (JsError
              ''OpenAI API key required. Set OPENAI_API_KEY or provide apiKey parameter.''), 0), st)
      | Some client \<Rightarrow>
          chatCompletionsCreate api client (modelOr (textModel params) ''gpt-4o-mini'') st)"

definition generateFast ::
  "api \<Rightarrow> string option \<Rightarrow> string \<Rightarrow> string option \<Rightarrow> string action" where
  "generateFast api apiKeyEnv p sp st =
     generateText api apiKeyEnv
       \<lparr>prompt = p, systemPrompt = sp, textModel = Some ''gpt-4o-mini'', apiKey = None\<rparr> st"

definition generateQuality ::
  "api \<Rightarrow> string option \<Rightarrow> string \<Rightarrow> string option \<Rightarrow> string action" where
  "generateQuality api apiKeyEnv p sp st =
     generateText api apiKeyEnv
       \<lparr>prompt = p, systemPrompt = sp, textModel = Some ''gpt-4o'', apiKey = None\<rparr> st"

definition analyzeImage ::
  "api \<Rightarrow> string option \<Rightarrow> string \<Rightarrow> string \<Rightarrow> string option \<Rightarrow> string action" where
  "analyzeImage api apiKeyEnv imageUrl p m st =
     (case openaiClient apiKeyEnv of
        None \<Rightarrow> ((Inl (JsError ''OpenAI client not initialized. Set OPENAI_API_KEY.''), 0), st)
      | Some client \<Rightarrow> chatCompletionsCreate api client (modelOr m ''gpt-4o'') st)"

text \<open>Examples: a service that answers in two seconds, and a state with no open circuit.\<close>

definition quick_api :: api where
  "quick_api m = (Inr ''ok'', 2000)"

definition calm :: rstate where
  "calm = \<lparr>events = [], openCircuits = []\<rparr>"

text \<open>A service that answers after ninety seconds.\<close>

definition slow_api :: api where
  "slow_api m = (Inr ''late'', 90000)"

section \<open>Capability registry and alias normalization\<close>

text \<open>
  Modelled from the spec: the capability registry and its alias-normalization pass, which
  are missing from the sources. A descriptor carries the invocation convention, the
  canonical parameter names and the table of deprecated parameter names with the
  canonical name each stands for. The registry maps paths to descriptors and deprecated
  paths to canonical ones.
\<close>

datatype convention = Positional | ParamsObject | OptionsObject

record CapabilityDescriptor =
  invocation :: convention
  canonicalParams :: "string list"
  paramAliases :: "(string \<times> string) list"

record Registry =
  capabilities :: "(string \<times> CapabilityDescriptor) list"
  pathAliases :: "(string \<times> string) list"

text \<open>
  Modelled from the spec: \<open>resolve\<close> tries the exact path first and on a miss the table of
  deprecated paths. It returns the canonical path with the descriptor.
\<close>

definition resolve :: "Registry \<Rightarrow> string \<Rightarrow> (string \<times> CapabilityDescriptor) option" where
  "resolve reg path =
     (case map_of (capabilities reg) path of
        Some d \<Rightarrow> Some (path, d)
      | None \<Rightarrow>
          (case map_of (pathAliases reg) path of
             None \<Rightarrow> None
           | Some path' \<Rightarrow>
               (case map_of (capabilities reg) path' of
                  None \<Rightarrow> None
                | Some d \<Rightarrow> Some (path', d))))"

text \<open>
  Modelled from the spec: the name under which a supplied parameter is kept. A canonical
  name is never renamed. A deprecated name is renamed to the canonical name it stands for
  unless that name is already among the parameters present, in which case nothing is
  renamed. No placeholder is ever made up.
\<close>

definition renamed :: "CapabilityDescriptor \<Rightarrow> string list \<Rightarrow> string \<Rightarrow> string" where
  "renamed d present k =
     (if k \<in> set (canonicalParams d) then k
      else (case map_of (paramAliases d) k of
              None \<Rightarrow> k
            | Some c \<Rightarrow> if c \<in> set present \<or> c \<notin> set (canonicalParams d) then k else c))"

text \<open>
  Modelled from the spec: the pass over the members of an input mapping, in order. The
  names present are those already settled and those still to come.
\<close>

fun normalizeFrom ::
  "CapabilityDescriptor \<Rightarrow> (string \<times> json) list \<Rightarrow> (string \<times> json) list \<Rightarrow> (string \<times> json) list" where
  "normalizeFrom d settled [] = settled"
| "normalizeFrom d settled ((k, v) # rest) =
     normalizeFrom d
       (settled @ [(renamed d (map fst settled @ k # map fst rest) k, v)]) rest"

text \<open>
  Modelled from the spec: the pass applied to the inputs of a step; inputs that are not an
  object are left alone.
\<close>

definition normalizeInputs :: "CapabilityDescriptor \<Rightarrow> json \<Rightarrow> json" where
  "normalizeInputs d j = (case j of JObj kvs \<Rightarrow> JObj (normalizeFrom d [] kvs) | _ \<Rightarrow> j)"

text \<open>
  Modelled from the spec: normalizing a step. A path that does not resolve is a
  validation error.
\<close>

definition normalizeStep :: "Registry \<Rightarrow> WorkflowStep \<Rightarrow> error + WorkflowStep" where
  "normalizeStep reg step =
     (case resolve reg (module step) of
        None \<Rightarrow> Inl (ValidationError (module step))
      | Some (path, d) \<Rightarrow>
          Inr (step\<lparr>module := path, inputs := normalizeInputs d (inputs step)\<rparr>))"

text \<open>The names of the members of an input mapping.\<close>

definition inputKeys :: "json \<Rightarrow> string list" where
  "inputKeys j = (case j of JObj kvs \<Rightarrow> map fst kvs | _ \<Rightarrow> [])"

text \<open>
  Examples: a registry with \<open>pick(obj, keys)\<close> and \<open>stringify(data, pretty)\<close>, whose alias
  tables know \<open>obj\<close> and \<open>object\<close> as names for each other's parameter, and two steps.
\<close>

definition transform_registry :: Registry where
  "transform_registry =
     \<lparr>capabilities =
        [(''utilities.json-transform.pick'',
          \<lparr>invocation = Positional, canonicalParams = [''obj'', ''keys''],
           paramAliases = [(''obj'', ''object''), (''object'', ''obj'')]\<rparr>),
         (''utilities.json-transform.stringify'',
          \<lparr>invocation = Positional, canonicalParams = [''data'', ''pretty''],
           paramAliases = [(''obj'', ''data'')]\<rparr>)],
      pathAliases = [(''utilities.json.stringify'', ''utilities.json-transform.stringify'')]\<rparr>"

definition pick_fields_step :: WorkflowStep where
  "pick_fields_step =
     \<lparr>stepId = ''pick-employee-fields'', module = ''utilities.json-transform.pick'',
      inputs = JObj [(''obj'', JStr ''{{employees[0]}}''),
                     (''keys'', JArr [JStr ''name'', JStr ''email'', JStr ''department''])],
      outputAs = Some ''picked''\<rparr>"

definition stringify_step :: WorkflowStep where
  "stringify_step =
     \<lparr>stepId = ''stringify-summary'', module = ''utilities.json.stringify'',
      inputs = JObj [(''obj'', JStr ''{{summary}}''), (''pretty'', JBool True)],
      outputAs = None\<rparr>"

text \<open>
  A member after the pass, against the member before it: the value is the same, and so is
  the name when it was canonical.
\<close>

definition kept :: "CapabilityDescriptor \<Rightarrow> string \<times> json \<Rightarrow> string \<times> json \<Rightarrow> bool" where
  "kept d p q \<longleftrightarrow> snd q = snd p \<and> (fst p \<in> set (canonicalParams d) \<longrightarrow> fst q = fst p)"

section \<open>Properties of the scheduler\<close>

lemma register_total: "\<exists>s'. register validate job s = Inr s'"
  by (simp add: register_def cron_schedule_def)

lemma map_of_started_map:
  "map_of (map (\<lambda>(n, t). (n, f t)) al) k = map_option f (map_of al k)"
  by (induction al) auto

lemma set_update_subset: "set (AList.update k v al) \<subseteq> insert (k, v) (set al)"
  by (induction al) auto

lemma update_entry:
  "(n, t) \<in> set (AList.update k v al) \<Longrightarrow> (n = k \<and> t = v) \<or> (n, t) \<in> set al"
  using set_update_subset [of k v al] by auto

lemma set_delete_subset: "set (AList.delete k al) \<subseteq> set al"
  by (auto simp: AList.delete_eq)

lemma is_started_iff: "is_started n s \<longleftrightarrow> (\<exists>t. (n, t) \<in> set (jobs s) \<and> running t)"
  by (auto simp: is_started_def list_ex_iff)

lemma not_started_register:
  assumes "register validate job s = Inr s'" and "\<not> is_started n s"
  shows "\<not> is_started n s'"
proof (cases "s' = s")
  case True
  with assms(2) show ?thesis by simp
next
  case False
  with assms(1) have "jobs s' = AList.update (name job)
      (task_stop \<lparr>expression = schedule job, callback = task job, running = True\<rparr>) (jobs s)"
    by (auto simp: register_def cron_schedule_def split: if_splits)
  then show ?thesis
    using assms(2)
    by (auto simp: is_started_iff task_stop_def dest!: update_entry)
qed

lemma not_started_stop: "\<not> is_started n (stop s)"
  by (auto simp: stop_def is_started_iff task_stop_def)

lemma not_started_unregister: "\<not> is_started n s \<Longrightarrow> \<not> is_started n (unregister m s)"
  using set_delete_subset [of m "jobs s"]
  by (auto simp: unregister_def is_started_iff split: option.splits)

lemma not_started_stopJob: "\<not> is_started n s \<Longrightarrow> \<not> is_started n (snd (stopJob m s))"
proof (cases "map_of (jobs s) m")
  case None
  then show "\<not> is_started n s \<Longrightarrow> ?thesis" by (simp add: stopJob_def)
next
  case (Some t)
  then show "\<not> is_started n s \<Longrightarrow> ?thesis"
    using set_update_subset [of m "task_stop t" "jobs s"]
    by (auto simp: stopJob_def is_started_iff task_stop_def)
qed

lemma not_started_startJob:
  assumes "m \<noteq> n" and "\<not> is_started n s"
  shows "\<not> is_started n (snd (startJob m s))"
proof (cases "map_of (jobs s) m")
  case None
  with assms(2) show ?thesis by (simp add: startJob_def)
next
  case (Some t)
  then show ?thesis
    using assms set_update_subset [of m "task_start t" "jobs s"]
    by (auto simp: startJob_def is_started_iff)
qed

lemma registerOrUpdate_total: "\<exists>s'. registerOrUpdate validate job s = Inr s'"
proof -
  obtain s2 where "register validate job (if hasJob s (name job) then unregister (name job) s else s) = Inr s2"
    using register_total by blast
  then show ?thesis
    by (simp add: registerOrUpdate_def Let_def)
qed

lemma is_started_isInitialized_update:
  "is_started n (s\<lparr>isInitialized := b\<rparr>) = is_started n s"
  by (simp add: is_started_def)

lemma not_started_registerOrUpdate:
  assumes "name job \<noteq> n" and "registerOrUpdate validate job s = Inr s'" and "\<not> is_started n s"
  shows "\<not> is_started n s'"
proof -
  define s1 where "s1 = (if hasJob s (name job) then unregister (name job) s else s)"
  have s1: "\<not> is_started n s1"
    using assms(3) by (simp add: s1_def not_started_unregister)
  obtain s2 where s2: "register validate job s1 = Inr s2"
    using register_total by blast
  have n2: "\<not> is_started n s2"
    using s2 s1 by (rule not_started_register)
  have n3: "\<not> is_started n (snd (startJob (name job) s2))"
    using assms(1) n2 by (rule not_started_startJob)
  show ?thesis
    using assms(2) s2 n2 n3
    by (auto simp: registerOrUpdate_def Let_def s1_def [symmetric] is_started_isInitialized_update
        split: if_splits)
qed

lemma not_fired_tick:
  assumes "\<not> is_started n (scheduler w)" and "n \<notin> set (fired w)"
  shows "n \<notin> set (fired (tick w))"
  using assms by (auto simp: tick_def is_started_iff)

lemma tick_scheduler: "scheduler (tick w) = scheduler w"
  by (simp add: tick_def)

lemma exec_quiet:
  assumes "\<not> starts n c" and "quiet n w"
  shows "\<exists>w'. exec validate c w = Inr w' \<and> quiet n w'"
proof (cases c)
  case (Register job)
  obtain s' where s': "register validate job (scheduler w) = Inr s'"
    using register_total by blast
  with assms(2) have "\<not> is_started n s'"
    by (auto simp: quiet_def dest: not_started_register)
  with s' assms(2) Register show ?thesis by (simp add: quiet_def)
next
  case Start
  with assms(1) show ?thesis by simp
next
  case Stop
  with assms(2) show ?thesis by (simp add: quiet_def not_started_stop)
next
  case (Unregister m)
  with assms(2) show ?thesis by (simp add: quiet_def not_started_unregister)
next
  case (StartJob m)
  with assms show ?thesis by (simp add: quiet_def not_started_startJob)
next
  case (StopJob m)
  with assms(2) show ?thesis by (simp add: quiet_def not_started_stopJob)
next
  case (RegisterOrUpdate job)
  obtain s' where s': "registerOrUpdate validate job (scheduler w) = Inr s'"
    using registerOrUpdate_total by blast
  from RegisterOrUpdate assms(1) have "name job \<noteq> n" by simp
  from this s' have "\<not> is_started n s'"
    using assms(2) by (auto simp: quiet_def dest: not_started_registerOrUpdate)
  with s' assms(2) RegisterOrUpdate show ?thesis by (simp add: quiet_def)
next
  case Tick
  with assms(2) show ?thesis by (simp add: quiet_def not_fired_tick tick_scheduler)
qed

lemma run_quiet:
  "\<forall>c \<in> set cs. \<not> starts n c \<Longrightarrow> quiet n w \<Longrightarrow> \<exists>w'. run validate cs w = Inr w' \<and> quiet n w'"
proof (induction cs arbitrary: w)
  case Nil
  then show ?case by simp
next
  case (Cons c cs)
  then obtain w1 where w1: "exec validate c w = Inr w1" "quiet n w1"
    using exec_quiet [of n c w validate] by auto
  with Cons.IH [of w1] Cons.prems(1) show ?case by simp
qed

lemma not_hasJob_not_started: "\<not> hasJob s n \<Longrightarrow> \<not> is_started n s"
  by (auto simp: hasJob_def is_started_iff map_of_eq_None_iff image_iff)


lemma register_stores_stopped:
  assumes "\<not> hasJob s (name job)" and "enabled job \<noteq> Some False" and "validate (schedule job)"
  shows "register validate job s =
           Inr (s\<lparr>jobs := AList.update (name job)
                  \<lparr>expression = schedule job, callback = task job, running = False\<rparr> (jobs s)\<rparr>)"
  using assms by (simp add: register_def cron_schedule_def task_stop_def)

text \<open>
  Claim C10. \<open>register\<close> never starts the job it registers. For a name that is not yet
  in the job map, whatever the value of \<open>isInitialized\<close>, \<open>register\<close> returns normally;
  when the job is accepted (not disabled, pattern valid) the task is in the map, stopped.
  After that, any sequence of scheduler calls and clock ticks that contains neither
  \<open>start\<close>, nor \<open>startJob\<close> of that name, nor \<open>registerOrUpdate\<close> of that name, runs to
  its end without the task being started and without it running once.
\<close>

theorem register_never_starts:
  assumes "\<not> hasJob s (name job)" and "list_all (\<lambda>c. \<not> starts (name job) c) cs"
  shows "\<exists>s' w. register validate job s = Inr s'
           \<and> (enabled job \<noteq> Some False \<and> validate (schedule job) \<longrightarrow>
                map_of (jobs s') (name job) =
                  Some \<lparr>expression = schedule job, callback = task job, running = False\<rparr>)
           \<and> run validate cs \<lparr>scheduler = s', fired = []\<rparr> = Inr w
           \<and> \<not> is_started (name job) (scheduler w)
           \<and> name job \<notin> set (fired w)"
proof -
  obtain s' where s': "register validate job s = Inr s'"
    using register_total by blast
  from assms(1) have "\<not> is_started (name job) s"
    by (rule not_hasJob_not_started)
  with s' have "\<not> is_started (name job) s'"
    by (rule not_started_register)
  then have q: "quiet (name job) \<lparr>scheduler = s', fired = []\<rparr>"
    by (simp add: quiet_def)
  from assms(2) have "\<forall>c \<in> set cs. \<not> starts (name job) c"
    by (simp add: list_all_iff)
  from run_quiet [OF this q]
  obtain w where w: "run validate cs \<lparr>scheduler = s', fired = []\<rparr> = Inr w" "quiet (name job) w"
    by blast
  have stored: "enabled job \<noteq> Some False \<and> validate (schedule job) \<longrightarrow>
      map_of (jobs s') (name job) =
        Some \<lparr>expression = schedule job, callback = task job, running = False\<rparr>"
    using s' register_stores_stopped [OF assms(1), of validate]
    by (auto simp: AList.update_conv')
  from s' stored w show ?thesis
    by (auto simp: quiet_def)
qed

theorem register_never_starts_witness:
  "\<not> hasJob hourly_scheduler ''sync''
   \<and> list_all (\<lambda>c. \<not> starts ''sync'' c)
        [Tick, StopJob ''sync'', StartJob ''tweets'', Tick, Stop, Tick :: nat op]
   \<and> (\<exists>s' w. register field_count_ok
                  \<lparr>name = ''sync'', schedule = ''*/5 * * * *'', task = 2, enabled = None\<rparr>
                  hourly_scheduler = Inr s'
          \<and> map_of (jobs s') ''sync'' =
                Some \<lparr>expression = ''*/5 * * * *'', callback = 2, running = False\<rparr>
          \<and> run field_count_ok [Tick, StopJob ''sync'', StartJob ''tweets'', Tick, Stop, Tick]
                \<lparr>scheduler = s', fired = []\<rparr> = Inr w
          \<and> \<not> is_started ''sync'' (scheduler w)
          \<and> ''sync'' \<notin> set (fired w))"
proof -
  have h1: "\<not> hasJob hourly_scheduler
      (name \<lparr>name = ''sync'', schedule = ''*/5 * * * *'', task = 2::nat, enabled = None\<rparr>)"
    by (simp add: hasJob_def hourly_scheduler_def)
  have h2: "list_all (\<lambda>c. \<not> starts
      (name \<lparr>name = ''sync'', schedule = ''*/5 * * * *'', task = 2::nat, enabled = None\<rparr>) c)
        [Tick, StopJob ''sync'', StartJob ''tweets'', Tick, Stop, Tick :: nat op]"
    by simp
  have h3: "field_count_ok ''*/5 * * * *''"
    by (simp add: field_count_ok_def)
  show ?thesis
    using h1 h2 h3 register_never_starts [OF h1 h2, of field_count_ok]
    by simp
qed

lemma hasJob_unregister: "\<not> hasJob (unregister n s) n"
  by (auto simp: hasJob_def unregister_def AList.delete_conv' split: option.splits)

lemma unregister_other: "m \<noteq> n \<Longrightarrow> map_of (jobs (unregister n s)) m = map_of (jobs s) m"
  by (simp add: unregister_def split: option.splits)

lemma unregister_isInitialized: "isInitialized (unregister n s) = isInitialized s"
  by (simp add: unregister_def split: option.splits)

lemma cleared_facts:
  "\<not> hasJob (cleared n s) n"
  "m \<noteq> n \<Longrightarrow> map_of (jobs (cleared n s)) m = map_of (jobs s) m"
  "isInitialized (cleared n s) = isInitialized s"
  by (simp_all add: cleared_def hasJob_unregister unregister_other unregister_isInitialized)

text \<open>
  Claim C5, as amended. For a job whose \<open>enabled\<close> flag is not \<open>false\<close> and whose cron
  expression is valid, \<open>registerOrUpdate\<close> returns normally with the name bound to a new,
  started task that carries the new schedule and task function, with every other name
  bound as before, and with \<open>isInitialized\<close> set. For a job with \<open>enabled = false\<close> it
  returns normally with the name removed from the map, every other name bound as before,
  and \<open>isInitialized\<close> left as it was.
\<close>

theorem registerOrUpdate_replaces:
  "(enabled job \<noteq> Some False \<and> validate (schedule job) \<longrightarrow>
      (\<exists>s'. registerOrUpdate validate job s = Inr s'
         \<and> map_of (jobs s') (name job) =
             Some \<lparr>expression = schedule job, callback = task job, running = True\<rparr>
         \<and> isInitialized s'
         \<and> (\<forall>m. m \<noteq> name job \<longrightarrow> map_of (jobs s') m = map_of (jobs s) m)))
   \<and> (enabled job = Some False \<longrightarrow>
      (\<exists>s'. registerOrUpdate validate job s = Inr s'
         \<and> map_of (jobs s') (name job) = None
         \<and> isInitialized s' = isInitialized s
         \<and> (\<forall>m. m \<noteq> name job \<longrightarrow> map_of (jobs s') m = map_of (jobs s) m)))"
proof (intro conjI impI)
  assume a: "enabled job \<noteq> Some False \<and> validate (schedule job)"
  define s1 where "s1 = cleared (name job) s"
  define t0 where "t0 = \<lparr>expression = schedule job, callback = task job, running = False\<rparr>"
  define s2 where "s2 = s1\<lparr>jobs := AList.update (name job) t0 (jobs s1)\<rparr>"
  have r: "register validate job s1 = Inr s2"
    using a register_stores_stopped [of s1 job validate] cleared_facts(1) [of "name job" s]
    by (simp add: s1_def s2_def t0_def)
  have g: "map_of (jobs s2) (name job) = Some t0"
    by (simp add: s2_def AList.update_conv')
  define s3 where "s3 = s2\<lparr>jobs := AList.update (name job) (task_start t0) (jobs s2)\<rparr>"
  have sj: "snd (startJob (name job) s2) = s3"
    using g by (simp add: startJob_def s3_def)
  have res: "registerOrUpdate validate job s =
      Inr (if \<not> isInitialized s3 then s3\<lparr>isInitialized := True\<rparr> else s3)"
    using a r sj by (simp add: registerOrUpdate_def Let_def s1_def cleared_def)
  have j3: "map_of (jobs s3) = (map_of (jobs s1))(name job \<mapsto> task_start t0)"
    by (simp add: s3_def s2_def AList.update_conv')
  show "\<exists>s'. registerOrUpdate validate job s = Inr s'
         \<and> map_of (jobs s') (name job) =
             Some \<lparr>expression = schedule job, callback = task job, running = True\<rparr>
         \<and> isInitialized s'
         \<and> (\<forall>m. m \<noteq> name job \<longrightarrow> map_of (jobs s') m = map_of (jobs s) m)"
    using res j3 cleared_facts(2) [of _ "name job" s]
    by (auto simp: task_start_def t0_def s1_def)
next
  assume d: "enabled job = Some False"
  have "registerOrUpdate validate job s = Inr (cleared (name job) s)"
    using d by (simp add: registerOrUpdate_def Let_def register_def cleared_def)
  then show "\<exists>s'. registerOrUpdate validate job s = Inr s'
         \<and> map_of (jobs s') (name job) = None
         \<and> isInitialized s' = isInitialized s
         \<and> (\<forall>m. m \<noteq> name job \<longrightarrow> map_of (jobs s') m = map_of (jobs s) m)"
    using cleared_facts [where n = "name job" and s = s]
    by (auto simp: hasJob_def)
qed

theorem registerOrUpdate_replaces_witness:
  "field_count_ok ''*/5 * * * *''
   \<and> registerOrUpdate field_count_ok
        \<lparr>name = ''tweets'', schedule = ''*/5 * * * *'', task = 7, enabled = Some True\<rparr>
        (hourly_scheduler\<lparr>isInitialized := False\<rparr>)
     = Inr \<lparr>jobs = [(''tweets'', \<lparr>expression = ''*/5 * * * *'', callback = 7, running = True\<rparr>)],
            isInitialized = True\<rparr>
   \<and> registerOrUpdate field_count_ok
        \<lparr>name = ''tweets'', schedule = ''*/5 * * * *'', task = 7, enabled = Some False\<rparr>
        hourly_scheduler
     = Inr \<lparr>jobs = [], isInitialized = True\<rparr>"
proof -
  have v: "field_count_ok ''*/5 * * * *''"
    by (simp add: field_count_ok_def)
  have e1: "enabled \<lparr>name = ''tweets'', schedule = ''*/5 * * * *'', task = 7::nat, enabled = Some True\<rparr>
              \<noteq> Some False"
    by simp
  have e2: "enabled \<lparr>name = ''tweets'', schedule = ''*/5 * * * *'', task = 7::nat, enabled = Some False\<rparr>
              = Some False"
    by simp
  note a = registerOrUpdate_replaces [of
      "\<lparr>name = ''tweets'', schedule = ''*/5 * * * *'', task = 7::nat, enabled = Some True\<rparr>"
      field_count_ok "hourly_scheduler\<lparr>isInitialized := False\<rparr>"]
  note b = registerOrUpdate_replaces [of
      "\<lparr>name = ''tweets'', schedule = ''*/5 * * * *'', task = 7::nat, enabled = Some False\<rparr>"
      field_count_ok hourly_scheduler]
  show ?thesis
    using v e1 e2 a b
    by (simp add: registerOrUpdate_def register_def cron_schedule_def hasJob_def unregister_def
        startJob_def task_start_def task_stop_def hourly_scheduler_def Let_def AList.delete_eq)
qed

text \<open>
  Claim C5 as stated fails: called for a registered name with \<open>enabled = false\<close> on a
  scheduler that was never started, \<open>registerOrUpdate\<close> removes the registration,
  registers nothing in its place and leaves \<open>isInitialized\<close> false.
\<close>

theorem registerOrUpdate_disabled_counterexample:
  "registerOrUpdate field_count_ok
     \<lparr>name = ''tweets'', schedule = ''*/5 * * * *'', task = 7, enabled = Some False\<rparr>
     (hourly_scheduler\<lparr>isInitialized := False\<rparr>)
   = Inr \<lparr>jobs = [], isInitialized = False\<rparr>"
  by (simp add: registerOrUpdate_def register_def hasJob_def unregister_def
      hourly_scheduler_def Let_def AList.delete_eq)

text \<open>
  With a pattern that the validator refuses, the old registration is removed as well,
  nothing is registered, and \<open>isInitialized\<close> is set all the same.
\<close>

lemma registerOrUpdate_refused_pattern_example:
  "registerOrUpdate field_count_ok
     \<lparr>name = ''tweets'', schedule = ''* * *'', task = 7, enabled = Some True\<rparr> hourly_scheduler
   = Inr \<lparr>jobs = [], isInitialized = True\<rparr>"
  by (simp add: registerOrUpdate_def register_def hasJob_def unregister_def startJob_def
      field_count_ok_def hourly_scheduler_def Let_def AList.delete_eq)

text \<open>
  Claim C4. \<open>register\<close> called with a cron expression that the validator refuses, or with
  a name that is already registered, returns normally (no exception) and the scheduler
  it leaves is the one it found: no entry is added to the job map, no entry is changed,
  no task is restarted.
\<close>

theorem register_rejects_unchanged:
  "hasJob s (name job) \<or> \<not> validate (schedule job) \<Longrightarrow> register validate job s = Inr s"
  by (auto simp: register_def)

theorem register_rejects_unchanged_witness:
  "\<not> field_count_ok ''* * *''
   \<and> register field_count_ok
         \<lparr>name = ''sync'', schedule = ''* * *'', task = 2, enabled = None\<rparr> hourly_scheduler
       = Inr hourly_scheduler"
proof -
  have bad: "\<not> field_count_ok ''* * *''"
    by (simp add: field_count_ok_def)
  show ?thesis
    using bad register_rejects_unchanged [of hourly_scheduler
        "\<lparr>name = ''sync'', schedule = ''* * *'', task = 2, enabled = None\<rparr>" field_count_ok]
    by simp
qed

section \<open>Properties of the workflow queue\<close>

lemma count_partition:
  "length (filter (\<lambda>j. jobState j = Waiting \<or> jobState j = Active \<or> jobState j = Delayed) q)
     = getWaitingCount q + getActiveCount q + getDelayedCount q"
proof (induction q)
  case Nil
  then show ?case by (simp add: getWaitingCount_def getActiveCount_def getDelayedCount_def)
next
  case (Cons j q)
  then show ?case
    by (cases "jobState j") (simp_all add: getWaitingCount_def getActiveCount_def getDelayedCount_def)
qed

lemma stats_of_queue:
  assumes "map_of (queues w) WORKFLOW_QUEUE_NAME = Some q"
  shows "getWorkflowQueueStats w =
           Some \<lparr>waiting = length (filter (\<lambda>j. jobState j = Waiting) q),
                 active = length (filter (\<lambda>j. jobState j = Active) q),
                 completed = length (filter (\<lambda>j. jobState j = Completed) q),
                 failed = length (filter (\<lambda>j. jobState j = Failed) q),
                 delayed = length (filter (\<lambda>j. jobState j = Delayed) q),
                 total = length (filter (\<lambda>j. jobState j = Waiting) q)
                         + length (filter (\<lambda>j. jobState j = Active) q)
                         + length (filter (\<lambda>j. jobState j = Delayed) q)\<rparr>"
  using assms
  by (simp add: getWorkflowQueueStats_def Let_def getWaitingCount_def getActiveCount_def
      getCompletedCount_def getFailedCount_def getDelayedCount_def)

text \<open>
  Claim C9. Without a workflow queue \<open>getWorkflowQueueStats\<close> returns \<open>null\<close>. With the queue
  it returns a record of the five counts of the waiting, active, completed, failed and
  delayed jobs of that queue, and a total that is the sum of the waiting, active and
  delayed counts only: the total is the number of jobs that are waiting, active or
  delayed, and the completed and the failed jobs are not in it.
\<close>

theorem stats_total_excludes_finished:
  "(map_of (queues w) WORKFLOW_QUEUE_NAME = None \<longrightarrow> getWorkflowQueueStats w = None)
   \<and> (\<forall>q. map_of (queues w) WORKFLOW_QUEUE_NAME = Some q \<longrightarrow>
          getWorkflowQueueStats w =
            Some \<lparr>waiting = length (filter (\<lambda>j. jobState j = Waiting) q),
                  active = length (filter (\<lambda>j. jobState j = Active) q),
                  completed = length (filter (\<lambda>j. jobState j = Completed) q),
                  failed = length (filter (\<lambda>j. jobState j = Failed) q),
                  delayed = length (filter (\<lambda>j. jobState j = Delayed) q),
                  total = length (filter (\<lambda>j. jobState j = Waiting) q)
                          + length (filter (\<lambda>j. jobState j = Active) q)
                          + length (filter (\<lambda>j. jobState j = Delayed) q)\<rparr>
          \<and> length (filter (\<lambda>j. jobState j = Waiting) q)
              + length (filter (\<lambda>j. jobState j = Active) q)
              + length (filter (\<lambda>j. jobState j = Delayed) q)
              = length (filter (\<lambda>j. jobState j = Waiting \<or> jobState j = Active
                                    \<or> jobState j = Delayed) q))
   \<and> (\<forall>st. getWorkflowQueueStats w = Some st \<longrightarrow>
          total st = waiting st + active st + delayed st)"
proof (intro conjI allI impI)
  assume "map_of (queues w) WORKFLOW_QUEUE_NAME = None"
  then show "getWorkflowQueueStats w = None"
    by (simp add: getWorkflowQueueStats_def)
next
  fix q assume "map_of (queues w) WORKFLOW_QUEUE_NAME = Some q"
  then show "getWorkflowQueueStats w =
            Some \<lparr>waiting = length (filter (\<lambda>j. jobState j = Waiting) q),
                  active = length (filter (\<lambda>j. jobState j = Active) q),
                  completed = length (filter (\<lambda>j. jobState j = Completed) q),
                  failed = length (filter (\<lambda>j. jobState j = Failed) q),
                  delayed = length (filter (\<lambda>j. jobState j = Delayed) q),
                  total = length (filter (\<lambda>j. jobState j = Waiting) q)
                          + length (filter (\<lambda>j. jobState j = Active) q)
                          + length (filter (\<lambda>j. jobState j = Delayed) q)\<rparr>"
    by (rule stats_of_queue)
next
  fix q :: queue
  show "length (filter (\<lambda>j. jobState j = Waiting) q)
              + length (filter (\<lambda>j. jobState j = Active) q)
              + length (filter (\<lambda>j. jobState j = Delayed) q)
              = length (filter (\<lambda>j. jobState j = Waiting \<or> jobState j = Active
                                    \<or> jobState j = Delayed) q)"
    using count_partition [of q]
    by (simp add: getWaitingCount_def getActiveCount_def getDelayedCount_def)
next
  fix st assume st: "getWorkflowQueueStats w = Some st"
  then obtain q where q: "map_of (queues w) WORKFLOW_QUEUE_NAME = Some q"
    by (cases "map_of (queues w) WORKFLOW_QUEUE_NAME") (simp_all add: getWorkflowQueueStats_def)
  from stats_of_queue [OF q] st show "total st = waiting st + active st + delayed st"
    by auto
qed

theorem stats_total_excludes_finished_witness:
  "map_of (queues \<lparr>queues = [(WORKFLOW_QUEUE_NAME, mixed_queue)], calls = []\<rparr>) WORKFLOW_QUEUE_NAME
     = Some mixed_queue
   \<and> getWorkflowQueueStats \<lparr>queues = [(WORKFLOW_QUEUE_NAME, mixed_queue)], calls = []\<rparr>
     = Some \<lparr>waiting = 2, active = 1, completed = 2, failed = 1, delayed = 1, total = 4\<rparr>
   \<and> map_of (queues \<lparr>queues = [], calls = []\<rparr>) WORKFLOW_QUEUE_NAME = None
   \<and> getWorkflowQueueStats \<lparr>queues = [], calls = []\<rparr> = None"
proof -
  have h: "map_of (queues \<lparr>queues = [(WORKFLOW_QUEUE_NAME, mixed_queue)], calls = []\<rparr>)
      WORKFLOW_QUEUE_NAME = Some mixed_queue"
    by simp
  have n: "map_of (queues \<lparr>queues = [], calls = []\<rparr>) WORKFLOW_QUEUE_NAME = None"
    by simp
  have c: "length (filter (\<lambda>j. jobState j = Waiting) mixed_queue) = 2"
      "length (filter (\<lambda>j. jobState j = Active) mixed_queue) = 1"
      "length (filter (\<lambda>j. jobState j = Completed) mixed_queue) = 2"
      "length (filter (\<lambda>j. jobState j = Failed) mixed_queue) = 1"
      "length (filter (\<lambda>j. jobState j = Delayed) mixed_queue) = 1"
    by (simp_all add: mixed_queue_def)
  note t1 = stats_total_excludes_finished
      [of "\<lparr>queues = [(WORKFLOW_QUEUE_NAME, mixed_queue)], calls = []\<rparr>"]
  note t2 = stats_total_excludes_finished [of "\<lparr>queues = [], calls = []\<rparr>"]
  have r1: "getWorkflowQueueStats \<lparr>queues = [(WORKFLOW_QUEUE_NAME, mixed_queue)], calls = []\<rparr>
     = Some \<lparr>waiting = 2, active = 1, completed = 2, failed = 1, delayed = 1, total = 4\<rparr>"
    using t1 h c by simp
  have r2: "getWorkflowQueueStats \<lparr>queues = [], calls = []\<rparr> = None"
    using t2 n by simp
  show ?thesis
    using h n r1 r2 by simp
qed

text \<open>
  Claim C6. With \<open>REDIS_URL\<close> unset (or empty), \<open>queueWorkflowExecution\<close> calls the executor
  exactly once, at once, with the arguments it was given, and touches no queue. Whatever
  result the executor returns, success or not, the call returns
  \<open>{ jobId: 'direct-execution', queued: false }\<close> and does not run it again; an exception
  of the executor is passed on to the caller. The request is never dropped.
\<close>

theorem direct_execution_fallback:
  assumes "\<not> truthy redisUrl"
  shows "snd (queueWorkflowExecution ex addJob redisUrl wid uid tt td options w)
           = w\<lparr>calls := calls w @
                 [\<lparr>workflowId = wid, userId = uid, triggerType = tt, triggerData = td\<rparr>]\<rparr>
         \<and> fst (queueWorkflowExecution ex addJob redisUrl wid uid tt td options w)
           = (case ex (calls w) \<lparr>workflowId = wid, userId = uid, triggerType = tt, triggerData = td\<rparr> of
                Returns result \<Rightarrow> Inr \<lparr>resultJobId = ''direct-execution'', queued = False\<rparr>
              | Throws e \<Rightarrow> Inl e)"
  using assms by (simp add: queueWorkflowExecution_def Let_def split: outcome.splits)

theorem direct_execution_fallback_witness:
  "\<not> truthy None
   \<and> queueWorkflowExecution failing_executor (\<lambda>q n d opts qs. (Inr None, qs)) None
        ''wf-1'' ''u-1'' Manual None None \<lparr>queues = [], calls = []\<rparr>
     = (Inr \<lparr>resultJobId = ''direct-execution'', queued = False\<rparr>,
        \<lparr>queues = [], calls = [digest_job]\<rparr>)"
proof -
  have h: "\<not> truthy None" by (simp add: truthy_def)
  show ?thesis
    using h direct_execution_fallback [OF h, of failing_executor "\<lambda>q n d opts qs. (Inr None, qs)"
        "''wf-1''" "''u-1''" Manual None None "\<lparr>queues = [], calls = []\<rparr>"]
    by (simp add: failing_executor_def digest_job_def prod_eq_iff)
qed

lemma sublist_mid: "sublist xs (ps @ xs @ ss)"
  by (auto simp: sublist_def)

lemma failureMessage_has_error: "sublist (template (error r)) (failureMessage r)"
  unfolding failureMessage_def by (rule sublist_mid)

lemma failureMessage_has_step:
  "truthy (errorStep r) \<Longrightarrow> sublist (''(step: '' @ template (errorStep r) @ '')'') (failureMessage r)"
proof -
  assume t: "truthy (errorStep r)"
  have "failureMessage r = (''Workflow execution failed: '' @ template (error r) @ '' '')
          @ (''(step: '' @ template (errorStep r) @ '')'') @ []"
    using t by (simp add: failureMessage_def)
  then show ?thesis
    using sublist_mid [of "''(step: '' @ template (errorStep r) @ '')''"
        "''Workflow execution failed: '' @ template (error r) @ '' ''" "[]"]
    by simp
qed

text \<open>
  Claim C7, as amended. When the execution returns a result without success, the error
  that the worker's processor throws has a message that contains the error text of the
  result; it contains the id of the failing step, as \<open>(step: id)\<close>, when the result has a
  non-empty \<open>errorStep\<close>, and otherwise it is \<open>Workflow execution failed: \<close> followed by the
  error text and a space.
\<close>

theorem failure_reports_message:
  assumes "ex cs d = Returns r" and "\<not> success r"
  shows "fst (processor ex d cs) = Inl (JsError (failureMessage r))
         \<and> sublist (template (error r)) (failureMessage r)
         \<and> (truthy (errorStep r) \<longrightarrow>
              sublist (''(step: '' @ template (errorStep r) @ '')'') (failureMessage r))
         \<and> (\<not> truthy (errorStep r) \<longrightarrow>
              failureMessage r = ''Workflow execution failed: '' @ template (error r) @ '' '')"
proof (intro conjI impI)
  show "fst (processor ex d cs) = Inl (JsError (failureMessage r))"
    using assms by (simp add: processor_def)
  show "sublist (template (error r)) (failureMessage r)"
    by (rule failureMessage_has_error)
  show "sublist (''(step: '' @ template (errorStep r) @ '')'') (failureMessage r)"
    if "truthy (errorStep r)"
    using that by (rule failureMessage_has_step)
  show "failureMessage r = ''Workflow execution failed: '' @ template (error r) @ '' ''"
    if "\<not> truthy (errorStep r)"
    using that by (simp add: failureMessage_def)
qed

theorem failure_reports_message_witness:
  "flaky_executor [] digest_job
     = Returns \<lparr>success = False, error = Some ''timeout'', errorStep = Some ''fetch-feed''\<rparr>
   \<and> fst (processor flaky_executor digest_job [])
       = Inl (JsError ''Workflow execution failed: timeout (step: fetch-feed)'')
   \<and> sublist ''timeout'' ''Workflow execution failed: timeout (step: fetch-feed)''
   \<and> sublist ''(step: fetch-feed)'' ''Workflow execution failed: timeout (step: fetch-feed)''
   \<and> failing_executor [] digest_job
     = Returns \<lparr>success = False, error = Some ''Rate limit exceeded'', errorStep = None\<rparr>
   \<and> fst (processor failing_executor digest_job [])
       = Inl (JsError ''Workflow execution failed: Rate limit exceeded '')"
proof -
  have a: "flaky_executor [] digest_job
     = Returns \<lparr>success = False, error = Some ''timeout'', errorStep = Some ''fetch-feed''\<rparr>"
    by (simp add: flaky_executor_def)
  have a': "\<not> success \<lparr>success = False, error = Some ''timeout'', errorStep = Some ''fetch-feed''\<rparr>"
    by simp
  have b: "failing_executor [] digest_job
     = Returns \<lparr>success = False, error = Some ''Rate limit exceeded'', errorStep = None\<rparr>"
    by (simp add: failing_executor_def)
  have b': "\<not> success \<lparr>success = False, error = Some ''Rate limit exceeded'', errorStep = None\<rparr>"
    by simp
  show ?thesis
    using a a' b b'
      failure_reports_message [of flaky_executor "[]" digest_job
        "\<lparr>success = False, error = Some ''timeout'', errorStep = Some ''fetch-feed''\<rparr>"]
      failure_reports_message [of failing_executor "[]" digest_job
        "\<lparr>success = False, error = Some ''Rate limit exceeded'', errorStep = None\<rparr>"]
    by (simp add: failureMessage_def truthy_def template_def)
qed

text \<open>
  Claim C7 as stated fails: for a failed result that carries an error text and no
  \<open>errorStep\<close>, the message of the thrown error names no step.
\<close>

theorem failure_without_step_counterexample:
  "failing_executor [] digest_job
     = Returns \<lparr>success = False, error = Some ''Rate limit exceeded'', errorStep = None\<rparr>
   \<and> fst (processor failing_executor digest_job [])
     = Inl (JsError ''Workflow execution failed: Rate limit exceeded '')
   \<and> \<not> sublist ''step'' ''Workflow execution failed: Rate limit exceeded ''"
proof -
  have "\<not> sublist ''step'' ''Workflow execution failed: Rate limit exceeded ''"
    by code_simp
  then show ?thesis
    by (simp add: processor_def failing_executor_def failureMessage_def truthy_def template_def)
qed

lemma processor_calls: "snd (processor ex d cs) = cs @ [d]"
  by (simp add: processor_def split: outcome.splits)

lemma processor_cases:
  obtains e where "processor ex d cs = (Inl e, cs @ [d])"
  | r where "processor ex d cs = (Inr r, cs @ [d])"
  using processor_calls [of ex d cs] by (cases "processor ex d cs"; cases "fst (processor ex d cs)") auto

lemma attemptFails_Inl:
  "attemptFails ex d cs k \<Longrightarrow> \<exists>e. processor ex d (cs @ replicate k d) = (Inl e, cs @ replicate k d @ [d])"
proof -
  assume a: "attemptFails ex d cs k"
  show ?thesis
  proof (cases rule: processor_cases [of ex d "cs @ replicate k d"])
    case (1 e)
    then show ?thesis by simp
  next
    case (2 r)
    with a show ?thesis by (simp add: attemptFails_def)
  qed
qed

lemma attemptSucceeds_Inr:
  "\<not> attemptFails ex d cs k \<Longrightarrow> \<exists>r. processor ex d (cs @ replicate k d) = (Inr r, cs @ replicate k d @ [d])"
proof -
  assume a: "\<not> attemptFails ex d cs k"
  show ?thesis
  proof (cases rule: processor_cases [of ex d "cs @ replicate k d"])
    case (1 e)
    with a show ?thesis by (simp add: attemptFails_def)
  next
    case (2 r)
    then show ?thesis by simp
  qed
qed

lemma runJob_unfold:
  "runJob ex defaultJobOptions d cs = runAttempts ex defaultJobOptions d (Suc (Suc (Suc 0))) 0 [] [] cs"
proof -
  have "max 1 (attempts defaultJobOptions) = Suc (Suc (Suc 0))"
    by (simp add: defaultJobOptions_def)
  then show ?thesis
    by (simp only: runJob_def)
qed

lemma run_fail_fail_ok:
  assumes "attemptFails ex d cs 0" "attemptFails ex d cs (Suc 0)" "\<not> attemptFails ex d cs 2"
  shows "finalState (runJob ex defaultJobOptions d cs) = Completed
       \<and> attemptsMade (runJob ex defaultJobOptions d cs) = 3
       \<and> backoffs (runJob ex defaultJobOptions d cs) = [10000, 20000]
       \<and> executorCalls (runJob ex defaultJobOptions d cs) = cs @ [d, d, d]
       \<and> returnValue (runJob ex defaultJobOptions d cs) = fst (processor ex d (cs @ [d, d]))"
proof -
  obtain e0 where p0: "processor ex d cs = (Inl e0, cs @ [d])"
    using attemptFails_Inl [OF assms(1)] by auto
  obtain e1 where p1: "processor ex d (cs @ [d]) = (Inl e1, cs @ [d, d])"
    using attemptFails_Inl [OF assms(2)] by auto
  obtain r where p2: "processor ex d (cs @ [d, d]) = (Inr r, cs @ [d, d, d])"
    using attemptSucceeds_Inr [OF assms(3)] by (auto simp: numeral_2_eq_2)
  have b1: "backoffFor defaultJobOptions (Suc 0) = 10000"
    by (simp add: backoffFor_def defaultJobOptions_def)
  have b2: "backoffFor defaultJobOptions (Suc (Suc 0)) = 20000"
    by (simp add: backoffFor_def defaultJobOptions_def)
  show ?thesis
    unfolding runJob_unfold
    by (simp add: p0 p1 p2 Let_def b1 b2)
qed


lemma run_fail_fail_fail:
  assumes "attemptFails ex d cs 0" "attemptFails ex d cs (Suc 0)" "attemptFails ex d cs 2"
  shows "finalState (runJob ex defaultJobOptions d cs) = Failed
       \<and> attemptsMade (runJob ex defaultJobOptions d cs) = 3
       \<and> backoffs (runJob ex defaultJobOptions d cs) = [10000, 20000]
       \<and> executorCalls (runJob ex defaultJobOptions d cs) = cs @ [d, d, d]
       \<and> returnValue (runJob ex defaultJobOptions d cs) = fst (processor ex d (cs @ [d, d]))"
proof -
  obtain e0 where p0: "processor ex d cs = (Inl e0, cs @ [d])"
    using attemptFails_Inl [OF assms(1)] by auto
  obtain e1 where p1: "processor ex d (cs @ [d]) = (Inl e1, cs @ [d, d])"
    using attemptFails_Inl [OF assms(2)] by auto
  obtain e2 where p2: "processor ex d (cs @ [d, d]) = (Inl e2, cs @ [d, d, d])"
    using attemptFails_Inl [OF assms(3)] by (auto simp: numeral_2_eq_2)
  have b1: "backoffFor defaultJobOptions (Suc 0) = 10000"
    by (simp add: backoffFor_def defaultJobOptions_def)
  have b2: "backoffFor defaultJobOptions (Suc (Suc 0)) = 20000"
    by (simp add: backoffFor_def defaultJobOptions_def)
  show ?thesis
    unfolding runJob_unfold
    by (simp add: p0 p1 p2 Let_def b1 b2)
qed

lemma runAttempts_bound:
  "length (executorCalls (runAttempts ex opts d left made waits ns cs)) \<le> length cs + left
   \<and> attemptsMade (runAttempts ex opts d left made waits ns cs) \<le> made + left"
proof (induction left arbitrary: made waits ns cs)
  case 0
  then show ?case by simp
next
  case (Suc left)
  show ?case
  proof (cases rule: processor_cases [of ex d cs])
    case (1 e)
    show ?thesis
    proof (cases "left = 0")
      case True
      with 1 show ?thesis by (simp add: Let_def)
    next
      case False
      have "length (executorCalls (runAttempts ex opts d (Suc left) made waits ns cs))
              \<le> length (cs @ [d]) + left
            \<and> attemptsMade (runAttempts ex opts d (Suc left) made waits ns cs) \<le> (made + 1) + left"
        using 1 False Suc.IH [where cs = "cs @ [d]" and made = "made + 1"]
        by (simp add: Let_def)
      then show ?thesis by simp
    qed
  next
    case (2 r)
    then show ?thesis by simp
  qed
qed

text \<open>
  Claim C2. With the job options of the workflow queue (3 attempts, exponential backoff
  from 10000 ms) a job whose first two runs fail and whose third succeeds ends completed
  after exactly 3 runs, having waited 10000 ms and then 20000 ms; a job whose three runs
  all fail ends failed after exactly 3 runs. No job is run more than 3 times, and the
  wait after failure number \<open>k + 1\<close> is the base delay doubled \<open>k\<close> times.
\<close>

theorem retry_three_attempts:
  "(attemptFails ex d cs 0 \<and> attemptFails ex d cs 1 \<and> \<not> attemptFails ex d cs 2 \<longrightarrow>
      finalState (runJob ex defaultJobOptions d cs) = Completed
      \<and> attemptsMade (runJob ex defaultJobOptions d cs) = 3
      \<and> backoffs (runJob ex defaultJobOptions d cs) = [10000, 20000]
      \<and> executorCalls (runJob ex defaultJobOptions d cs) = cs @ [d, d, d])
   \<and> (attemptFails ex d cs 0 \<and> attemptFails ex d cs 1 \<and> attemptFails ex d cs 2 \<longrightarrow>
      finalState (runJob ex defaultJobOptions d cs) = Failed
      \<and> attemptsMade (runJob ex defaultJobOptions d cs) = 3
      \<and> backoffs (runJob ex defaultJobOptions d cs) = [10000, 20000]
      \<and> executorCalls (runJob ex defaultJobOptions d cs) = cs @ [d, d, d])
   \<and> attemptsMade (runJob ex defaultJobOptions d cs) \<le> 3
   \<and> length (executorCalls (runJob ex defaultJobOptions d cs)) \<le> length cs + 3
   \<and> backoffFor defaultJobOptions (Suc k) = backoffDelay defaultJobOptions * 2 ^ k"
proof (intro conjI impI)
  assume a: "attemptFails ex d cs 0 \<and> attemptFails ex d cs 1 \<and> \<not> attemptFails ex d cs 2"
  then have r: "finalState (runJob ex defaultJobOptions d cs) = Completed
       \<and> attemptsMade (runJob ex defaultJobOptions d cs) = 3
       \<and> backoffs (runJob ex defaultJobOptions d cs) = [10000, 20000]
       \<and> executorCalls (runJob ex defaultJobOptions d cs) = cs @ [d, d, d]
       \<and> returnValue (runJob ex defaultJobOptions d cs) = fst (processor ex d (cs @ [d, d]))"
    using run_fail_fail_ok [of ex d cs] by simp
  from r show "finalState (runJob ex defaultJobOptions d cs) = Completed" by simp
  from r show "attemptsMade (runJob ex defaultJobOptions d cs) = 3" by simp
  from r show "backoffs (runJob ex defaultJobOptions d cs) = [10000, 20000]" by simp
  from r show "executorCalls (runJob ex defaultJobOptions d cs) = cs @ [d, d, d]" by simp
next
  assume a: "attemptFails ex d cs 0 \<and> attemptFails ex d cs 1 \<and> attemptFails ex d cs 2"
  then have r: "finalState (runJob ex defaultJobOptions d cs) = Failed
       \<and> attemptsMade (runJob ex defaultJobOptions d cs) = 3
       \<and> backoffs (runJob ex defaultJobOptions d cs) = [10000, 20000]
       \<and> executorCalls (runJob ex defaultJobOptions d cs) = cs @ [d, d, d]
       \<and> returnValue (runJob ex defaultJobOptions d cs) = fst (processor ex d (cs @ [d, d]))"
    using run_fail_fail_fail [of ex d cs] by simp
  from r show "finalState (runJob ex defaultJobOptions d cs) = Failed" by simp
  from r show "attemptsMade (runJob ex defaultJobOptions d cs) = 3" by simp
  from r show "backoffs (runJob ex defaultJobOptions d cs) = [10000, 20000]" by simp
  from r show "executorCalls (runJob ex defaultJobOptions d cs) = cs @ [d, d, d]" by simp
next
  have "runJob ex defaultJobOptions d cs =
      runAttempts ex defaultJobOptions d (Suc (Suc (Suc 0))) 0 [] [] cs"
    by (rule runJob_unfold)
  then have b: "length (executorCalls (runJob ex defaultJobOptions d cs)) \<le> length cs + Suc (Suc (Suc 0))
      \<and> attemptsMade (runJob ex defaultJobOptions d cs) \<le> 0 + Suc (Suc (Suc 0))"
    using runAttempts_bound [of ex defaultJobOptions d "Suc (Suc (Suc 0))" 0 "[]" "[]" cs]
    by simp
  from b show "attemptsMade (runJob ex defaultJobOptions d cs) \<le> 3" by simp
  from b show "length (executorCalls (runJob ex defaultJobOptions d cs)) \<le> length cs + 3" by simp
next
  show "backoffFor defaultJobOptions (Suc k) = backoffDelay defaultJobOptions * 2 ^ k"
    by (simp add: backoffFor_def defaultJobOptions_def)
qed

lemma flaky_attempts:
  "attemptFails flaky_executor digest_job [] 0"
  "attemptFails flaky_executor digest_job [] 1"
  "\<not> attemptFails flaky_executor digest_job [] 2"
  by (simp_all add: attemptFails_def processor_def flaky_executor_def numeral_2_eq_2)

lemma failing_attempts: "attemptFails failing_executor digest_job [] k"
  by (simp add: attemptFails_def processor_def failing_executor_def)

theorem retry_three_attempts_witness:
  "attemptFails flaky_executor digest_job [] 0 \<and> attemptFails flaky_executor digest_job [] 1
   \<and> \<not> attemptFails flaky_executor digest_job [] 2
   \<and> finalState (runJob flaky_executor defaultJobOptions digest_job []) = Completed
   \<and> attemptsMade (runJob flaky_executor defaultJobOptions digest_job []) = 3
   \<and> backoffs (runJob flaky_executor defaultJobOptions digest_job []) = [10000, 20000]
   \<and> executorCalls (runJob flaky_executor defaultJobOptions digest_job [])
       = [digest_job, digest_job, digest_job]
   \<and> attemptFails failing_executor digest_job [] 0 \<and> attemptFails failing_executor digest_job [] 1
   \<and> attemptFails failing_executor digest_job [] 2
   \<and> finalState (runJob failing_executor defaultJobOptions digest_job []) = Failed
   \<and> attemptsMade (runJob failing_executor defaultJobOptions digest_job []) = 3
   \<and> executorCalls (runJob failing_executor defaultJobOptions digest_job [])
       = [digest_job, digest_job, digest_job]"
  using flaky_attempts failing_attempts [of 0] failing_attempts [of 1] failing_attempts [of 2]
    retry_three_attempts [of flaky_executor digest_job "[]" 0]
    retry_three_attempts [of failing_executor digest_job "[]" 0]
  by simp

section \<open>Properties of the check of variable references\<close>

lemma varName_nonempty: "varName r = Some v \<Longrightarrow> v \<noteq> []"
  by (induction r rule: varName.induct) (auto split: if_splits)

lemma refErrors_cong: "set D = set D' \<Longrightarrow> refErrors k s D r = refErrors k s D' r"
  by (auto simp: refErrors_def split: option.splits)

lemma boundBefore_0: "boundBefore steps 0 = []"
  by (simp add: boundBefore_def)

lemma boundBefore_Suc:
  "boundBefore (s # rest) (Suc j) =
     (if truthy (outputAs s) then [template (outputAs s)] else []) @ boundBefore rest j"
  by (simp add: boundBefore_def)

lemma UN_lessThan_Suc_shift: "(\<Union>i<Suc n. f i) = f 0 \<union> (\<Union>j<n. f (Suc j))"
  by (auto simp: lessThan_Suc_eq_insert_0)

lemma checkSteps_set:
  "set (checkSteps k D steps) =
     (\<Union>i<length steps. \<Union>ref\<in>set (variableRefs (steps ! i)).
        set (refErrors (k + i) (steps ! i) (D @ boundBefore steps i) ref))"
proof (induction steps arbitrary: k D)
  case Nil
  then show ?case by simp
next
  case (Cons s rest)
  define D' where "D' = (if truthy (outputAs s) then List.insert (template (outputAs s)) D else D)"
  have same: "\<And>j. set (D' @ boundBefore rest j) = set (D @ boundBefore (s # rest) (Suc j))"
    by (auto simp: D'_def boundBefore_Suc)
  have tl: "set (checkSteps (k + 1) D' rest) =
      (\<Union>j<length rest. \<Union>ref\<in>set (variableRefs (rest ! j)).
         set (refErrors (k + Suc j) (rest ! j) (D @ boundBefore (s # rest) (Suc j)) ref))"
    using Cons.IH [of "k + 1" D'] refErrors_cong [OF same] by simp
  have hd: "set (concat (map (refErrors k s D) (variableRefs s))) =
      (\<Union>ref\<in>set (variableRefs s). set (refErrors (k + 0) s (D @ boundBefore (s # rest) 0) ref))"
    by (simp add: boundBefore_0)
  have "set (checkSteps k D (s # rest)) =
      set (concat (map (refErrors k s D) (variableRefs s))) \<union> set (checkSteps (k + 1) D' rest)"
    by (simp add: D'_def)
  also have "\<dots> = (\<Union>i<Suc (length rest). \<Union>ref\<in>set (variableRefs ((s # rest) ! i)).
        set (refErrors (k + i) ((s # rest) ! i) (D @ boundBefore (s # rest) i) ref))"
    unfolding UN_lessThan_Suc_shift hd tl by simp
  finally show ?case by simp
qed


lemma refErrors_empty_iff:
  "refErrors k s D r = [] \<longleftrightarrow> (\<forall>v. varName r = Some v \<longrightarrow> v = ''user'' \<or> v \<in> set D)"
  by (auto simp: refErrors_def varName_nonempty split: option.splits)

lemma refErrors_member:
  "varName r = Some v \<Longrightarrow> v \<noteq> ''user'' \<Longrightarrow> v \<notin> set D
     \<Longrightarrow> undeclaredMessage k (stepId s) v \<in> set (refErrors k s D r)"
  by (simp add: refErrors_def varName_nonempty)

lemma validate_set:
  "set (validateVariableReferences steps) =
     (\<Union>i<length steps. \<Union>ref\<in>set (variableRefs (steps ! i)).
        set (refErrors i (steps ! i) (boundBefore steps i) ref))"
  by (simp add: validateVariableReferences_def checkSteps_set)

text \<open>
  A reference that is a plain name between the braces is recognised wherever it stands,
  and its root is that name.
\<close>

lemma brace_not_word: "\<not> is_word (CHR ''}'')"
  by (simp add: is_word_def)

lemma simple_reference_recognised:
  assumes "w \<noteq> []" and "\<forall>c \<in> set w. is_word c"
  shows "match_ref (''{{'' @ w @ ''}}'' @ rest) = Some (''{{'' @ w @ ''}}'', rest)"
proof -
  have tw: "takeWhile is_word (w @ ''}}'' @ rest) = w"
    using assms(2) brace_not_word by (simp add: takeWhile_append2)
  have dw: "dropWhile is_word (w @ ''}}'' @ rest) = ''}}'' @ rest"
    using assms(2) brace_not_word by (simp add: dropWhile_append2)
  have tk: "take (4 + length w) (CHR ''{'' # CHR ''{'' # w @ CHR ''}'' # CHR ''}'' # rest)
      = CHR ''{'' # CHR ''{'' # w @ ''}}''"
    by (simp add: numeral_eq_Suc)
  show ?thesis
    using assms(1) tw dw tk by (simp add: match_ref_def Let_def)
qed

lemma simple_reference_root:
  assumes "w \<noteq> []" and "\<forall>c \<in> set w. is_word c"
  shows "varName (''{{'' @ w @ ''}}'') = Some w"
proof -
  have "takeWhile is_word (w @ ''}}'') = w"
    using assms(2) brace_not_word by (simp add: takeWhile_append2)
  with assms(1) show ?thesis by simp
qed

text \<open>
  Claim C3, as amended. The static pass goes over the steps in document order and looks
  at the references that its pattern recognises in the inputs of each step. It returns no
  error exactly when every recognised reference is rooted at \<open>user\<close> or at a non-empty
  \<open>outputAs\<close> of a strictly earlier step. A recognised reference rooted at any other name
  (the output of a later step or of no step, and also \<open>trigger\<close> and \<open>credential\<close>) is
  reported with the number and the id of its step. The validation script prints what the
  pass returns as warnings and runs to its end; no step is executed.
\<close>

theorem variable_references_checked:
  "(validateVariableReferences steps = [] \<longleftrightarrow>
      (\<forall>i<length steps. \<forall>ref\<in>set (variableRefs (steps ! i)). \<forall>v.
          varName ref = Some v \<longrightarrow> v = ''user'' \<or> v \<in> set (boundBefore steps i)))
   \<and> (\<forall>i ref v. i < length steps \<and> ref \<in> set (variableRefs (steps ! i))
          \<and> varName ref = Some v \<and> v \<noteq> ''user'' \<and> v \<notin> set (boundBefore steps i)
        \<longrightarrow> undeclaredMessage i (stepId (steps ! i)) v \<in> set (validateVariableReferences steps))
   \<and> validateWorkflow True [] steps = ValidationComplete (validateVariableReferences steps)"
proof (intro conjI)
  have "validateVariableReferences steps = [] \<longleftrightarrow> set (validateVariableReferences steps) = {}"
    by simp
  also have "\<dots> \<longleftrightarrow> (\<forall>i<length steps. \<forall>ref\<in>set (variableRefs (steps ! i)).
      refErrors i (steps ! i) (boundBefore steps i) ref = [])"
    unfolding validate_set by auto
  also have "\<dots> \<longleftrightarrow> (\<forall>i<length steps. \<forall>ref\<in>set (variableRefs (steps ! i)). \<forall>v.
      varName ref = Some v \<longrightarrow> v = ''user'' \<or> v \<in> set (boundBefore steps i))"
    by (simp only: refErrors_empty_iff)
  finally show "validateVariableReferences steps = [] \<longleftrightarrow>
      (\<forall>i<length steps. \<forall>ref\<in>set (variableRefs (steps ! i)). \<forall>v.
          varName ref = Some v \<longrightarrow> v = ''user'' \<or> v \<in> set (boundBefore steps i))" .
next
  show "\<forall>i ref v. i < length steps \<and> ref \<in> set (variableRefs (steps ! i))
          \<and> varName ref = Some v \<and> v \<noteq> ''user'' \<and> v \<notin> set (boundBefore steps i)
        \<longrightarrow> undeclaredMessage i (stepId (steps ! i)) v \<in> set (validateVariableReferences steps)"
    unfolding validate_set using refErrors_member by fastforce
next
  show "validateWorkflow True [] steps = ValidationComplete (validateVariableReferences steps)"
    by (simp add: validateWorkflow_def)
qed

theorem variable_references_checked_witness:
  "validateVariableReferences [fetch_step, pick_step] = []
   \<and> ''{{tweets[0]}}'' \<in> set (variableRefs ([fetch_step, pick_step] ! 1))
   \<and> varName ''{{tweets[0]}}'' = Some ''tweets''
   \<and> ''tweets'' \<in> set (boundBefore [fetch_step, pick_step] 1)
   \<and> (2::nat) < length [fetch_step, pick_step, trigger_step]
   \<and> ''{{trigger.message}}'' \<in> set (variableRefs ([fetch_step, pick_step, trigger_step] ! 2))
   \<and> varName ''{{trigger.message}}'' = Some ''trigger''
   \<and> ''trigger'' \<notin> set (boundBefore [fetch_step, pick_step, trigger_step] 2)
   \<and> undeclaredMessage 2 ''reply'' ''trigger''
       \<in> set (validateVariableReferences [fetch_step, pick_step, trigger_step])
   \<and> validateWorkflow True [] [fetch_step, pick_step, trigger_step]
       = ValidationComplete [undeclaredMessage 2 ''reply'' ''trigger'']"
proof -
  have a1: "validateVariableReferences [fetch_step, pick_step] = []"
    by code_simp
  have a2: "''{{tweets[0]}}'' \<in> set (variableRefs ([fetch_step, pick_step] ! 1))"
    by code_simp
  have a3: "varName ''{{tweets[0]}}'' = Some ''tweets''"
    by code_simp
  have a4: "(1::nat) < length [fetch_step, pick_step]"
    by simp
  have b1: "(2::nat) < length [fetch_step, pick_step, trigger_step]"
    by simp
  have b2: "''{{trigger.message}}'' \<in> set (variableRefs ([fetch_step, pick_step, trigger_step] ! 2))"
    by code_simp
  have b3: "varName ''{{trigger.message}}'' = Some ''trigger''"
    by code_simp
  have b4: "''trigger'' \<notin> set (boundBefore [fetch_step, pick_step, trigger_step] 2)"
    by code_simp
  have b5: "stepId ([fetch_step, pick_step, trigger_step] ! 2) = ''reply''"
    by code_simp
  have b6: "validateVariableReferences [fetch_step, pick_step, trigger_step]
      = [undeclaredMessage 2 ''reply'' ''trigger'']"
    by code_simp
  note t1 = variable_references_checked [of "[fetch_step, pick_step]"]
  note t2 = variable_references_checked [of "[fetch_step, pick_step, trigger_step]"]
  have c1: "''tweets'' \<in> set (boundBefore [fetch_step, pick_step] 1)"
    using t1 a1 a2 a3 a4 by fastforce
  have c2: "undeclaredMessage 2 ''reply'' ''trigger''
       \<in> set (validateVariableReferences [fetch_step, pick_step, trigger_step])"
    using t2 b1 b2 b3 b4 b5 by (metis list.discI list.inject not_Cons_self2)
  have c3: "validateWorkflow True [] [fetch_step, pick_step, trigger_step]
       = ValidationComplete [undeclaredMessage 2 ''reply'' ''trigger'']"
    using t2 b6 by simp
  show ?thesis
    using a1 a2 a3 c1 b1 b2 b3 b4 c2 c3 by blast
qed

text \<open>
  Claim C3 as stated fails: a step whose input refers to the trigger payload,
  \<open>{{trigger.message}}\<close>, is reported as referring to an undeclared variable.
\<close>

theorem trigger_reference_counterexample:
  "variableRefs trigger_step = [''{{trigger.message}}'']
   \<and> validateVariableReferences [trigger_step]
     = [''Step 1 (reply): References undeclared variable '' @ [CHR 0x22] @ ''trigger'' @ [CHR 0x22]]"
  by code_simp

text \<open>
  A reference with a field after an index is not of the form that the pattern recognises,
  and a reference to a credential is reported like any undeclared name.
\<close>

lemma unrecognised_reference_example:
  "validateVariableReferences
     [\<lparr>stepId = ''pick'', module = ''utilities.array-utils.first'',
       inputs = JObj [(''text'', JStr ''{{later[0].name}}'')], outputAs = None\<rparr>] = []"
  by code_simp

lemma credential_reference_example:
  "validateVariableReferences
     [\<lparr>stepId = ''ask'', module = ''ai.ai-sdk.generateText'',
       inputs = JObj [(''apiKey'', JStr ''{{credential.openai_api_key}}'')], outputAs = None\<rparr>]
   = [''Step 1 (ask): References undeclared variable '' @ [CHR 0x22] @ ''credential'' @ [CHR 0x22]]"
  by code_simp

section \<open>Properties of the OpenAI module\<close>

lemma create_events:
  "events (snd (chatCompletionsCreate api client m st))
     = events st @ [OpenAIRequest m (clientTimeout client)]"
  by (simp add: chatCompletionsCreate_def emit_def split: prod.splits)

lemma create_openCircuits:
  "openCircuits (snd (chatCompletionsCreate api client m st)) = openCircuits st"
  by (simp add: chatCompletionsCreate_def emit_def split: prod.splits)

lemma create_late:
  "snd (api m) > clientTimeout client \<Longrightarrow>
     fst (chatCompletionsCreate api client m st)
       = (Inl (TimeoutError (clientTimeout client)), clientTimeout client)"
  by (auto simp: chatCompletionsCreate_def split: prod.splits)

lemma create_in_time:
  "snd (api m) \<le> clientTimeout client \<Longrightarrow> fst (chatCompletionsCreate api client m st) = api m"
  by (auto simp: chatCompletionsCreate_def split: prod.splits)

lemma createCompletion_open:
  assumes "''openai-completion'' \<in> set (openCircuits st)"
  shows "createCompletion api key options st =
    ((Inl (CircuitOpenError ''openai-completion''), 0),
     st\<lparr>events := events st @ [RateLimiterEntered ''openai'', BreakerRejected ''openai-completion'']\<rparr>)"
  using assms
  by (simp add: createCompletion_def createCompletionRateLimited_def withRateLimit_def fire_def
      createCompletionWithBreaker_def openaiRateLimiter_def emit_def)

lemma createCompletion_closed:
  assumes "''openai-completion'' \<notin> set (openCircuits st)"
  shows "createCompletion api key options st =
    (case createCompletionInternal api key options
            (st\<lparr>events := events st @
                  [RateLimiterEntered ''openai'', BreakerPassed ''openai-completion'',
                   TimeoutArmed 60000]\<rparr>) of
       ((r, t), st') \<Rightarrow>
         if t > 60000 then ((Inl (TimeoutError 60000), 60000), st') else ((r, t), st'))"
  using assms
  by (simp add: createCompletion_def createCompletionRateLimited_def withRateLimit_def fire_def
      createCompletionWithBreaker_def openaiRateLimiter_def emit_def split: prod.splits)

lemma guarded_snd:
  "snd (case X of ((r, t), st') \<Rightarrow>
          if t > T then ((Inl (TimeoutError T), T), st') else ((r, t), st')) = snd X"
  by (simp split: prod.splits)

lemma guarded_fst:
  "fst (case X of ((r, t), st') \<Rightarrow>
          if t > T then ((Inl (TimeoutError T), T), st') else ((r, t), st'))
     = (if snd (fst X) > T then (Inl (TimeoutError T), T) else fst X)"
  by (simp split: prod.splits)

lemma internal_with_key:
  assumes "truthy key"
  shows "createCompletionInternal api key options st =
    chatCompletionsCreate api \<lparr>clientApiKey = template key, clientTimeout = 60000\<rparr>
      (modelOr (model options) ''gpt-4o-mini'') st"
  using assms by (simp add: createCompletionInternal_def openaiClient_def)

lemma internal_without_key:
  assumes "\<not> truthy key"
  shows "createCompletionInternal api key options st =
    ((Inl (JsError ''OpenAI client not initialized. Set OPENAI_API_KEY.''), 0), st)"
  using assms by (simp add: createCompletionInternal_def openaiClient_def)

lemma createCompletion_closed_events:
  assumes "''openai-completion'' \<notin> set (openCircuits st)"
  shows "events (snd (createCompletion api key options st)) =
    events st @ [RateLimiterEntered ''openai'', BreakerPassed ''openai-completion'', TimeoutArmed 60000]
      @ (if truthy key then [OpenAIRequest (modelOr (model options) ''gpt-4o-mini'') 60000] else [])"
proof (cases "truthy key")
  case True
  define st1 where "st1 = st\<lparr>events := events st @
      [RateLimiterEntered ''openai'', BreakerPassed ''openai-completion'', TimeoutArmed 60000]\<rparr>"
  define c where "c = \<lparr>clientApiKey = template key, clientTimeout = 60000\<rparr>"
  define m where "m = modelOr (model options) ''gpt-4o-mini''"
  have ev: "events (snd (chatCompletionsCreate api c m st1)) = events st1 @ [OpenAIRequest m 60000]"
    using create_events [of api c m st1] by (simp add: c_def)
  have "snd (createCompletion api key options st) = snd (chatCompletionsCreate api c m st1)"
    unfolding createCompletion_closed [OF assms] internal_with_key [OF True] guarded_snd
    by (simp add: st1_def c_def m_def)
  with ev True show ?thesis
    by (simp add: st1_def m_def)
next
  case False
  show ?thesis
    unfolding createCompletion_closed [OF assms] internal_without_key [OF False]
    using False by simp
qed

lemma createCompletion_timeout:
  assumes "''openai-completion'' \<notin> set (openCircuits st)" and "truthy key"
    and "snd (api (modelOr (model options) ''gpt-4o-mini'')) > 60000"
  shows "fst (createCompletion api key options st) = (Inl (TimeoutError 60000), 60000)"
proof -
  define st1 where "st1 = st\<lparr>events := events st @
      [RateLimiterEntered ''openai'', BreakerPassed ''openai-completion'', TimeoutArmed 60000]\<rparr>"
  define c where "c = \<lparr>clientApiKey = template key, clientTimeout = 60000\<rparr>"
  define m where "m = modelOr (model options) ''gpt-4o-mini''"
  have "fst (chatCompletionsCreate api c m st1) = (Inl (TimeoutError 60000), 60000)"
    using create_late [of c api m st1] assms(3) by (simp add: c_def m_def)
  then show ?thesis
    unfolding createCompletion_closed [OF assms(1)] internal_with_key [OF assms(2)] guarded_fst
    by (simp add: st1_def c_def m_def)
qed

lemma createCompletion_in_time:
  assumes "''openai-completion'' \<notin> set (openCircuits st)" and "truthy key"
    and "snd (api (modelOr (model options) ''gpt-4o-mini'')) \<le> 60000"
  shows "fst (createCompletion api key options st) = api (modelOr (model options) ''gpt-4o-mini'')"
proof -
  define st1 where "st1 = st\<lparr>events := events st @
      [RateLimiterEntered ''openai'', BreakerPassed ''openai-completion'', TimeoutArmed 60000]\<rparr>"
  define c where "c = \<lparr>clientApiKey = template key, clientTimeout = 60000\<rparr>"
  define m where "m = modelOr (model options) ''gpt-4o-mini''"
  have "fst (chatCompletionsCreate api c m st1) = api m"
    using create_in_time [of api m c st1] assms(3) by (simp add: c_def m_def)
  then show ?thesis
    unfolding createCompletion_closed [OF assms(1)] internal_with_key [OF assms(2)] guarded_fst
    using assms(3)
    by (simp add: st1_def c_def m_def)
qed

lemma generateText_client:
  assumes "truthy (apiKey params) \<or> truthy key"
  shows "\<exists>k. generateText api key params st =
    chatCompletionsCreate api \<lparr>clientApiKey = k, clientTimeout = 60000\<rparr>
      (modelOr (textModel params) ''gpt-4o-mini'') st"
  using assms by (auto simp: generateText_def openaiClient_def)

lemma generateText_events:
  "events (snd (generateText api key params st)) =
     events st @ (if truthy (apiKey params) \<or> truthy key
                  then [OpenAIRequest (modelOr (textModel params) ''gpt-4o-mini'') 60000] else [])"
proof (cases "truthy (apiKey params) \<or> truthy key")
  case True
  from generateText_client [OF True] obtain k where
    "generateText api key params st =
       chatCompletionsCreate api \<lparr>clientApiKey = k, clientTimeout = 60000\<rparr>
         (modelOr (textModel params) ''gpt-4o-mini'') st"
    by blast
  with True show ?thesis
    using create_events [of api "\<lparr>clientApiKey = k, clientTimeout = 60000\<rparr>"
        "modelOr (textModel params) ''gpt-4o-mini''" st]
    by simp
next
  case False
  then show ?thesis
    by (simp add: generateText_def openaiClient_def)
qed

lemma generateText_late:
  assumes "truthy (apiKey params) \<or> truthy key"
    and "snd (api (modelOr (textModel params) ''gpt-4o-mini'')) > 60000"
  shows "fst (generateText api key params st) = (Inl (TimeoutError 60000), 60000)"
proof -
  from generateText_client [OF assms(1)] obtain k where
    "generateText api key params st =
       chatCompletionsCreate api \<lparr>clientApiKey = k, clientTimeout = 60000\<rparr>
         (modelOr (textModel params) ''gpt-4o-mini'') st"
    by blast
  then show ?thesis
    using create_late [of "\<lparr>clientApiKey = k, clientTimeout = 60000\<rparr>" api
        "modelOr (textModel params) ''gpt-4o-mini''" st] assms(2)
    by simp
qed

lemma generateText_in_time:
  assumes "truthy (apiKey params) \<or> truthy key"
    and "snd (api (modelOr (textModel params) ''gpt-4o-mini'')) \<le> 60000"
  shows "fst (generateText api key params st) = api (modelOr (textModel params) ''gpt-4o-mini'')"
proof -
  from generateText_client [OF assms(1)] obtain k where
    "generateText api key params st =
       chatCompletionsCreate api \<lparr>clientApiKey = k, clientTimeout = 60000\<rparr>
         (modelOr (textModel params) ''gpt-4o-mini'') st"
    by blast
  then show ?thesis
    using create_in_time [of api "modelOr (textModel params) ''gpt-4o-mini''"
        "\<lparr>clientApiKey = k, clientTimeout = 60000\<rparr>" st] assms(2)
    by simp
qed

text \<open>
  Claim C8, as amended. \<open>createCompletion\<close>, and \<open>chat\<close> which calls it, pass the three
  policies in this order: the rate limiter \<open>openai\<close> first, then the circuit breaker
  \<open>openai-completion\<close>, which on an open circuit rejects the call without a request being
  sent, then the timeout of 60000 ms, and only then the request; a request that takes
  longer than the timeout is rejected, one that does not is returned as it is.
  \<open>generateText\<close> sends its request through a client with a timeout of 60000 ms, which
  rejects a request that takes longer, and passes neither the rate limiter nor the
  circuit breaker.
\<close>

theorem createCompletion_policy_order:
  "(''openai-completion'' \<in> set (openCircuits st) \<longrightarrow>
      createCompletion api key options st =
        ((Inl (CircuitOpenError ''openai-completion''), 0),
         st\<lparr>events := events st @
               [RateLimiterEntered ''openai'', BreakerRejected ''openai-completion'']\<rparr>))
   \<and> (''openai-completion'' \<notin> set (openCircuits st) \<longrightarrow>
      events (snd (createCompletion api key options st)) =
        events st @
        [RateLimiterEntered ''openai'', BreakerPassed ''openai-completion'', TimeoutArmed 60000]
        @ (if truthy key then [OpenAIRequest (modelOr (model options) ''gpt-4o-mini'') 60000]
           else []))
   \<and> (''openai-completion'' \<notin> set (openCircuits st) \<and> truthy key
        \<and> snd (api (modelOr (model options) ''gpt-4o-mini'')) > 60000 \<longrightarrow>
      fst (createCompletion api key options st) = (Inl (TimeoutError 60000), 60000))
   \<and> (''openai-completion'' \<notin> set (openCircuits st) \<and> truthy key
        \<and> snd (api (modelOr (model options) ''gpt-4o-mini'')) \<le> 60000 \<longrightarrow>
      fst (createCompletion api key options st) = api (modelOr (model options) ''gpt-4o-mini''))
   \<and> chat api key msgs m st =
        createCompletion api key \<lparr>messages = msgs, model = Some (modelOr m ''gpt-4o-mini'')\<rparr> st
   \<and> events (snd (generateText api key params st)) =
        events st @ (if truthy (apiKey params) \<or> truthy key
                     then [OpenAIRequest (modelOr (textModel params) ''gpt-4o-mini'') 60000]
                     else [])
   \<and> ((truthy (apiKey params) \<or> truthy key)
        \<and> snd (api (modelOr (textModel params) ''gpt-4o-mini'')) > 60000 \<longrightarrow>
      fst (generateText api key params st) = (Inl (TimeoutError 60000), 60000))
   \<and> ((truthy (apiKey params) \<or> truthy key)
        \<and> snd (api (modelOr (textModel params) ''gpt-4o-mini'')) \<le> 60000 \<longrightarrow>
      fst (generateText api key params st) = api (modelOr (textModel params) ''gpt-4o-mini''))"
  using createCompletion_open [of st api key options]
    createCompletion_closed_events [of st api key options]
    createCompletion_timeout [of st key api options]
    createCompletion_in_time [of st key api options]
    generateText_events [of api key params st]
    generateText_late [of params key api st]
    generateText_in_time [of params key api st]
  by (simp add: chat_def)

theorem createCompletion_policy_order_witness:
  "''openai-completion'' \<in> set (openCircuits (calm\<lparr>openCircuits := [''openai-completion'']\<rparr>))
   \<and> createCompletion quick_api (Some ''sk-1'') \<lparr>messages = [''hi''], model = None\<rparr>
        (calm\<lparr>openCircuits := [''openai-completion'']\<rparr>)
      = ((Inl (CircuitOpenError ''openai-completion''), 0),
         \<lparr>events = [RateLimiterEntered ''openai'', BreakerRejected ''openai-completion''],
          openCircuits = [''openai-completion'']\<rparr>)
   \<and> ''openai-completion'' \<notin> set (openCircuits calm) \<and> truthy (Some ''sk-1'')
   \<and> snd (quick_api ''gpt-4o-mini'') \<le> 60000
   \<and> createCompletion quick_api (Some ''sk-1'') \<lparr>messages = [''hi''], model = None\<rparr> calm
      = ((Inr ''ok'', 2000),
         \<lparr>events = [RateLimiterEntered ''openai'', BreakerPassed ''openai-completion'',
                    TimeoutArmed 60000, OpenAIRequest ''gpt-4o-mini'' 60000],
          openCircuits = []\<rparr>)
   \<and> snd (slow_api ''gpt-4o-mini'') > 60000
   \<and> fst (createCompletion slow_api (Some ''sk-1'') \<lparr>messages = [''hi''], model = None\<rparr> calm)
      = (Inl (TimeoutError 60000), 60000)
   \<and> fst (generateText slow_api (Some ''sk-1'')
            \<lparr>prompt = ''hi'', systemPrompt = None, textModel = None, apiKey = None\<rparr> calm)
      = (Inl (TimeoutError 60000), 60000)
   \<and> events (snd (generateText slow_api (Some ''sk-1'')
            \<lparr>prompt = ''hi'', systemPrompt = None, textModel = None, apiKey = None\<rparr> calm))
      = [OpenAIRequest ''gpt-4o-mini'' 60000]"
proof -
  have o: "''openai-completion'' \<in> set (openCircuits (calm\<lparr>openCircuits := [''openai-completion'']\<rparr>))"
    by simp
  have c: "''openai-completion'' \<notin> set (openCircuits calm)"
    by (simp add: calm_def)
  have k: "truthy (Some ''sk-1'')"
    by (simp add: truthy_def)
  have m: "modelOr None ''gpt-4o-mini'' = ''gpt-4o-mini''"
    by (simp add: modelOr_def truthy_def)
  have q: "snd (quick_api ''gpt-4o-mini'') \<le> 60000"
    by (simp add: quick_api_def)
  have s: "snd (slow_api ''gpt-4o-mini'') > 60000"
    by (simp add: slow_api_def)
  note t1 = createCompletion_policy_order [of "calm\<lparr>openCircuits := [''openai-completion'']\<rparr>"
      quick_api "Some ''sk-1''" "\<lparr>messages = [''hi''], model = None\<rparr>"]
  note t2 = createCompletion_policy_order [of calm quick_api "Some ''sk-1''"
      "\<lparr>messages = [''hi''], model = None\<rparr>"]
  note t3 = createCompletion_policy_order [where st = calm and api = slow_api
      and key = "Some ''sk-1''" and options = "\<lparr>messages = [''hi''], model = None\<rparr>"
      and params = "\<lparr>prompt = ''hi'', systemPrompt = None, textModel = None, apiKey = None\<rparr>"]
  have r1: "createCompletion quick_api (Some ''sk-1'') \<lparr>messages = [''hi''], model = None\<rparr>
        (calm\<lparr>openCircuits := [''openai-completion'']\<rparr>)
      = ((Inl (CircuitOpenError ''openai-completion''), 0),
         \<lparr>events = [RateLimiterEntered ''openai'', BreakerRejected ''openai-completion''],
          openCircuits = [''openai-completion'']\<rparr>)"
    using t1 o by (simp add: calm_def)
  have r2: "createCompletion quick_api (Some ''sk-1'') \<lparr>messages = [''hi''], model = None\<rparr> calm
      = ((Inr ''ok'', 2000),
         \<lparr>events = [RateLimiterEntered ''openai'', BreakerPassed ''openai-completion'',
                    TimeoutArmed 60000, OpenAIRequest ''gpt-4o-mini'' 60000],
          openCircuits = []\<rparr>)"
    using t2 c k q
    by (simp add: createCompletion_def createCompletionRateLimited_def withRateLimit_def fire_def
      createCompletionWithBreaker_def openaiRateLimiter_def emit_def createCompletionInternal_def
      openaiClient_def chatCompletionsCreate_def calm_def quick_api_def modelOr_def truthy_def)
  have r3: "fst (createCompletion slow_api (Some ''sk-1'') \<lparr>messages = [''hi''], model = None\<rparr> calm)
      = (Inl (TimeoutError 60000), 60000)"
    using t3 c k s m by simp
  have r4: "fst (generateText slow_api (Some ''sk-1'')
            \<lparr>prompt = ''hi'', systemPrompt = None, textModel = None, apiKey = None\<rparr> calm)
      = (Inl (TimeoutError 60000), 60000)"
    using t3 k s m by simp
  have r5: "events (snd (generateText slow_api (Some ''sk-1'')
            \<lparr>prompt = ''hi'', systemPrompt = None, textModel = None, apiKey = None\<rparr> calm))
      = [OpenAIRequest ''gpt-4o-mini'' 60000]"
    using t3 k m by (simp add: calm_def)
  show ?thesis
    using o c k q s r1 r2 r3 r4 r5 by simp
qed

text \<open>
  Claim C8 as stated fails: \<open>generateText\<close> sends a request to the service and passes
  neither the rate limiter nor the circuit breaker; the only bound on the request is the
  timeout of the client.
\<close>

theorem generateText_unwrapped_counterexample:
  "generateText quick_api (Some ''sk-1'')
     \<lparr>prompt = ''hi'', systemPrompt = None, textModel = None, apiKey = None\<rparr> calm
   = ((Inr ''ok'', 2000), \<lparr>events = [OpenAIRequest ''gpt-4o-mini'' 60000], openCircuits = []\<rparr>)"
  by (simp add: generateText_def openaiClient_def chatCompletionsCreate_def emit_def calm_def
      quick_api_def modelOr_def truthy_def template_def)

section \<open>Properties of the alias normalization\<close>

lemma renamed_canonical: "k \<in> set (canonicalParams d) \<Longrightarrow> renamed d present k = k"
  by (simp add: renamed_def)

lemma renamed_cases: "renamed d present k = k \<or> renamed d present k \<notin> set present"
  by (simp add: renamed_def split: option.splits)

lemma normalizeFrom_length: "length (normalizeFrom d settled kvs) = length settled + length kvs"
  by (induction kvs arbitrary: settled) auto

lemma normalizeFrom_values: "map snd (normalizeFrom d settled kvs) = map snd settled @ map snd kvs"
  by (induction kvs arbitrary: settled) auto

lemma normalizeFrom_canonical:
  "set (map fst kvs) \<subseteq> set (canonicalParams d) \<Longrightarrow> normalizeFrom d settled kvs = settled @ kvs"
  by (induction kvs arbitrary: settled) (auto simp: renamed_canonical)

lemma normalizeFrom_kept:
  "\<exists>out. normalizeFrom d settled kvs = settled @ out \<and> list_all2 (kept d) kvs out"
proof (induction kvs arbitrary: settled)
  case Nil
  then show ?case by simp
next
  case (Cons p rest)
  obtain k v where p: "p = (k, v)" by (cases p)
  define q where "q = (renamed d (map fst settled @ k # map fst rest) k, v)"
  obtain out where out: "normalizeFrom d (settled @ [q]) rest = (settled @ [q]) @ out"
      "list_all2 (kept d) rest out"
    using Cons.IH [of "settled @ [q]"] by blast
  have "kept d p q"
    by (simp add: kept_def p q_def renamed_canonical)
  with out p show ?case
    by (simp add: q_def)
qed

lemma normalizeFrom_distinct:
  "distinct (map fst settled @ map fst kvs) \<Longrightarrow> distinct (map fst (normalizeFrom d settled kvs))"
proof (induction kvs arbitrary: settled)
  case Nil
  then show ?case by simp
next
  case (Cons p rest)
  obtain k v where p: "p = (k, v)" by (cases p)
  define present where "present = map fst settled @ k # map fst rest"
  define k' where "k' = renamed d present k"
  have "k' = k \<or> k' \<notin> set present"
    unfolding k'_def by (rule renamed_cases)
  then have "distinct (map fst (settled @ [(k', v)]) @ map fst rest)"
    using Cons.prems by (auto simp: p present_def)
  from Cons.IH [OF this] show ?case
    by (simp add: p k'_def present_def)
qed

text \<open>
  Claim C1. For a step whose path resolves, the alias-normalization pass returns the step
  with as many input members as before and with the same values, so no placeholder is
  added; every member whose name is canonical is left as it is; names that were distinct
  stay distinct, so no second key appears for one input; and when every name is canonical
  the inputs are unchanged, the whole step being returned as it is when its path is the
  canonical one.
\<close>

theorem alias_normalization_conservative:
  assumes "resolve reg (module step) = Some (path, d)" and "inputs step = JObj kvs"
  shows "\<exists>kvs'. normalizeStep reg step = Inr (step\<lparr>module := path, inputs := JObj kvs'\<rparr>)
           \<and> length kvs' = length kvs
           \<and> map snd kvs' = map snd kvs
           \<and> (\<forall>i<length kvs. fst (kvs ! i) \<in> set (canonicalParams d) \<longrightarrow> kvs' ! i = kvs ! i)
           \<and> (distinct (map fst kvs) \<longrightarrow> distinct (map fst kvs'))
           \<and> (set (map fst kvs) \<subseteq> set (canonicalParams d) \<longrightarrow> kvs' = kvs)
           \<and> (set (map fst kvs) \<subseteq> set (canonicalParams d) \<and> path = module step \<longrightarrow>
                normalizeStep reg step = Inr step)"
proof -
  define kvs' where "kvs' = normalizeFrom d [] kvs"
  have res: "normalizeStep reg step = Inr (step\<lparr>module := path, inputs := JObj kvs'\<rparr>)"
    using assms by (simp add: normalizeStep_def normalizeInputs_def kvs'_def)
  have len: "length kvs' = length kvs"
    by (simp add: kvs'_def normalizeFrom_length)
  have vals: "map snd kvs' = map snd kvs"
    by (simp add: kvs'_def normalizeFrom_values)
  have k: "list_all2 (kept d) kvs kvs'"
    using normalizeFrom_kept [of d "[]" kvs] by (simp add: kvs'_def)
  have canon: "\<forall>i<length kvs. fst (kvs ! i) \<in> set (canonicalParams d) \<longrightarrow> kvs' ! i = kvs ! i"
  proof (intro allI impI)
    fix i assume i: "i < length kvs" and c: "fst (kvs ! i) \<in> set (canonicalParams d)"
    from k i have "kept d (kvs ! i) (kvs' ! i)"
      by (rule list_all2_nthD)
    with c show "kvs' ! i = kvs ! i"
      by (simp add: kept_def prod_eq_iff)
  qed
  have dist: "distinct (map fst kvs) \<longrightarrow> distinct (map fst kvs')"
    using normalizeFrom_distinct [of "[]" kvs d] by (simp add: kvs'_def)
  have noop: "set (map fst kvs) \<subseteq> set (canonicalParams d) \<longrightarrow> kvs' = kvs"
    using normalizeFrom_canonical [of kvs d "[]"] by (simp add: kvs'_def)
  have whole: "set (map fst kvs) \<subseteq> set (canonicalParams d) \<and> path = module step \<longrightarrow>
      normalizeStep reg step = Inr step"
    using res noop assms(2) by auto
  from res len vals canon dist noop whole show ?thesis
    by blast
qed

theorem alias_normalization_conservative_witness:
  "resolve transform_registry (module pick_fields_step)
     = Some (''utilities.json-transform.pick'',
             \<lparr>invocation = Positional, canonicalParams = [''obj'', ''keys''],
              paramAliases = [(''obj'', ''object''), (''object'', ''obj'')]\<rparr>)
   \<and> set (inputKeys (inputs pick_fields_step)) \<subseteq> set [''obj'', ''keys'']
   \<and> normalizeStep transform_registry pick_fields_step = Inr pick_fields_step"
proof -
  have r: "resolve transform_registry (module pick_fields_step)
     = Some (''utilities.json-transform.pick'',
             \<lparr>invocation = Positional, canonicalParams = [''obj'', ''keys''],
              paramAliases = [(''obj'', ''object''), (''object'', ''obj'')]\<rparr>)"
    by (simp add: resolve_def transform_registry_def pick_fields_step_def)
  have i: "inputs pick_fields_step =
      JObj [(''obj'', JStr ''{{employees[0]}}''),
            (''keys'', JArr [JStr ''name'', JStr ''email'', JStr ''department''])]"
    by (simp add: pick_fields_step_def)
  have m: "''utilities.json-transform.pick'' = module pick_fields_step"
    by (simp add: pick_fields_step_def)
  show ?thesis
    using r i m alias_normalization_conservative [OF r i]
    by (simp add: inputKeys_def)
qed

text \<open>A deprecated name whose canonical name is absent is renamed, with its value.\<close>

lemma deprecated_name_renamed_example:
  "normalizeStep transform_registry stringify_step =
     Inr \<lparr>stepId = ''stringify-summary'', module = ''utilities.json-transform.stringify'',
          inputs = JObj [(''data'', JStr ''{{summary}}''), (''pretty'', JBool True)],
          outputAs = None\<rparr>"
  by (simp add: normalizeStep_def resolve_def transform_registry_def stringify_step_def
      normalizeInputs_def renamed_def)

end
